theory Spec2Isabelle
  imports Main
begin

section \<open>GGSelChatMonitor: data model\<close>

text \<open>
  The embedding follows \<^verbatim>\<open>GGSelChatMonitor-Complete.js\<close>. JavaScript objects are records;
  a property that may be \<^verbatim>\<open>null\<close> or \<^verbatim>\<open>undefined\<close> is an \<open>option\<close> (both are
  \<open>None\<close>). Field names are the source's; where two objects use the same property name
  the record field carries a suffix: \<open>_s\<close> for a sale, \<open>_c\<close> for a chat, \<open>_m\<close> for a message,
  \<open>_d\<close> for an invoice cache entry, \<open>_p\<close> for the purchase body, \<open>_pr\<close> for the product
  body. Invoice, chat, product and message ids are integers.
\<close>

type_synonym token = string

text \<open>A rejected promise: the three rejections the fetchers raise, and the one of \<^verbatim>\<open>getToken\<close>.\<close>

datatype error = RequestError string | HttpError nat | ApiError string | TokenError string

text \<open>What the callback of \<^verbatim>\<open>Request\<close> receives: an error, or a status code and a body.\<close>

datatype 'b http = Failed string | Response nat 'b

record sale =
  invoice_id :: int
  product_s :: string
  date :: string
  buyer_email :: "string option"
  order_amount :: "string option"
  currency_type :: "string option"
  formatted_amount :: "string option"

record chat =
  id_c :: int
  id_i :: int
  product_c :: int
  email :: "string option"
  cnt_msg :: "nat option"
  cnt_new :: "nat option"
  last_message :: string

record message =
  id_m :: int
  message_m :: string
  buyer :: bool

record invoice_data =
  invoice_id_d :: int
  buyer_email_d :: "string option"
  order_amount_d :: "string option"
  currency_type_d :: "string option"
  formatted_amount_d :: "string option"
  product_d :: "string option"
  date_d :: "string option"

text \<open>
  The bodies of the five endpoints, as far as the monitor reads them. A body is an object
  of the shape the monitor expects; the amount and the currency of a purchase are taken
  as the strings the template literal of line 360 prints (a numeric amount 0, which is
  falsy in the code, is not among them). A reply may come without a body: the messages
  endpoint guards it with \<^verbatim>\<open>body || []\<close>, the purchase and the product endpoint read
  \<^verbatim>\<open>body.retval\<close> unguarded, so these three replies carry an optional body. For the
  sales and the chat list a missing body raises in the caller's \<^verbatim>\<open>try\<close>, where a
  rejection ends as well: the remote side says it with \<open>Failed\<close>.
\<close>

record sales_body =
  retval :: int
  retdesc :: string
  sales :: "sale list option"

record purchase_info =
  buyer_info_email :: "string option"
  amount :: "string option"
  currency_type_p :: "string option"

record purchase_body =
  retval_p :: int
  retdesc_p :: string
  content :: "purchase_info option"

record product_body =
  retval_pr :: int
  retdesc_pr :: string
  name_pr :: "string option"

record chats_body =
  items :: "chat list option"

text \<open>
  The three handlers \<^verbatim>\<open>onNewOrder\<close>, \<^verbatim>\<open>onNewChat\<close>, \<^verbatim>\<open>onNewMessage\<close> are recorded as
  events, with the arguments they are called with, as they are at the call. The handlers
  are called without \<^verbatim>\<open>await\<close>, and those of \<^verbatim>\<open>TelegramNotifier.js\<close> are
  \<^verbatim>\<open>async\<close> functions, so a call returns a promise and throws nothing: a handler call
  has no other effect on the monitor.
\<close>

datatype event =
    NewOrder sale
  | NewChat chat "string option"
  | NewMessages chat nat "message list" "string option"

text \<open>The requests the monitor sends, with their arguments (the token apart).\<close>

datatype call =
    GetToken
  | FetchLastSales nat
  | FetchInvoiceDetails int
  | FetchProduct int
  | FetchChats
  | FetchMessages int nat

text \<open>
  The remote side. Every reply is a function of the requests sent so far, the current one
  last, so that two requests with the same arguments may be answered differently.
\<close>

record env =
  token_reply :: "call list \<Rightarrow> error + token"
  sales_reply :: "call list \<Rightarrow> token \<Rightarrow> sales_body http"
  purchase_reply :: "call list \<Rightarrow> token \<Rightarrow> purchase_body option http"
  product_reply :: "call list \<Rightarrow> token \<Rightarrow> product_body option http"
  chats_reply :: "call list \<Rightarrow> token \<Rightarrow> chats_body http"
  messages_reply :: "call list \<Rightarrow> token \<Rightarrow> message list option http"

text \<open>
  The fields of the class that the monitor reads (the logger, \<^verbatim>\<open>debugMode\<close> and the
  handlers are left out), and three observations: \<open>calls\<close>, the requests sent so far,
  \<open>events\<close>, the handler calls made so far, and \<open>halted\<close>: an exception was thrown
  inside a request callback. Such an exception is outside every promise and every
  \<^verbatim>\<open>try\<close>, and no \<^verbatim>\<open>uncaughtException\<close> handler is installed, so the process
  ends: the pending \<^verbatim>\<open>await\<close> never settles and no step of the monitor runs after
  it.
\<close>

record monitor =
  pollingInterval :: nat
  isRunning :: bool
  isInitialized :: bool
  lastChatCount :: nat
  lastMessageCounts :: "int \<rightharpoonup> nat"
  lastMessageIds :: "int \<rightharpoonup> int"
  productCache :: "int \<rightharpoonup> string"
  invoiceCache :: "int \<rightharpoonup> invoice_data"
  lastSaleInvoiceId :: "int option"
  calls :: "call list"
  events :: "event list"
  halted :: bool

text \<open>What an \<^verbatim>\<open>await\<close> gets: the value the promise settles with, or nothing, ever.\<close>

datatype 'a awaited = Settled 'a | Never

section \<open>JavaScript helpers\<close>

text \<open>Truthiness of a string that may be null: neither null nor empty.\<close>

fun truthy :: "string option \<Rightarrow> bool" where
  "truthy None = False"
| "truthy (Some v) = (v \<noteq> [])"

text \<open>\<^verbatim>\<open>x || null\<close>\<close>

definition or_null :: "string option \<Rightarrow> string option" where
  "or_null x = (if truthy x then x else None)"

text \<open>\<^verbatim>\<open>Math.max(...xs)\<close>; \<open>None\<close> is the \<^verbatim>\<open>-Infinity\<close> of an empty list.\<close>

fun Math_max :: "int list \<Rightarrow> int option" where
  "Math_max [] = None"
| "Math_max (x # xs) = Some (fold max xs x)"

text \<open>
  A number in a template literal: the decimal digits, with a sign. This is what the code
  prints for the integers a JavaScript number holds exactly, those below \<open>2 ^ 53\<close> in
  absolute value; larger numbers are printed rounded or in exponent form, which the
  digits below do not follow.
\<close>

definition digit_char :: "nat \<Rightarrow> char" where
  "digit_char d =
     (if d = 0 then CHR ''0'' else if d = 1 then CHR ''1'' else if d = 2 then CHR ''2''
      else if d = 3 then CHR ''3'' else if d = 4 then CHR ''4'' else if d = 5 then CHR ''5''
      else if d = 6 then CHR ''6'' else if d = 7 then CHR ''7'' else if d = 8 then CHR ''8''
      else CHR ''9'')"

fun string_of_nat :: "nat \<Rightarrow> string" where
  "string_of_nat n =
     (if n < 10 then [digit_char n] else string_of_nat (n div 10) @ [digit_char (n mod 10)])"

definition string_of_int :: "int \<Rightarrow> string" where
  "string_of_int i = (if i < 0 then CHR ''-'' # string_of_nat (nat (- i)) else string_of_nat (nat i))"

text \<open>The status test every fetcher makes.\<close>

definition bad_status :: "nat \<Rightarrow> bool" where
  "bad_status statusCode = (statusCode < 200 \<or> statusCode \<ge> 300)"

section \<open>The fetchers\<close>

text \<open>A request is logged, and answered by the remote side from the log.\<close>

definition request :: "monitor \<Rightarrow> call \<Rightarrow> monitor" where
  "request s c = s\<lparr>calls := calls s @ [c]\<rparr>"

definition getToken :: "env \<Rightarrow> monitor \<Rightarrow> (error + token) \<times> monitor" where
  "getToken e s = (let s' = request s GetToken in (token_reply e (calls s'), s'))"

definition fetchLastSales :: "env \<Rightarrow> monitor \<Rightarrow> token \<Rightarrow> nat \<Rightarrow> (error + sales_body) \<times> monitor" where
  "fetchLastSales e s tok top_n =
     (let s' = request s (FetchLastSales top_n) in
      (case sales_reply e (calls s') tok of
         Failed msg \<Rightarrow> Inl (RequestError msg)
       | Response statusCode body \<Rightarrow>
           if bad_status statusCode then Inl (HttpError statusCode) else Inr body,
       s'))"

text \<open>The exception of a request callback: the state it leaves.\<close>

definition halt :: "monitor \<Rightarrow> monitor" where
  "halt s = s\<lparr>halted := True\<rparr>"

text \<open>
  \<^verbatim>\<open>fetchInvoiceDetails\<close>: the callback tests the error, the status and then
  \<^verbatim>\<open>body.retval\<close> (line 141), which throws when the reply has no body.
\<close>

definition fetchInvoiceDetails ::
  "env \<Rightarrow> monitor \<Rightarrow> token \<Rightarrow> int \<Rightarrow> (error + purchase_info option) awaited \<times> monitor" where
  "fetchInvoiceDetails e s tok invoiceId =
     (let s' = request s (FetchInvoiceDetails invoiceId) in
      case purchase_reply e (calls s') tok of
        Failed msg \<Rightarrow> (Settled (Inl (RequestError msg)), s')
      | Response statusCode reply \<Rightarrow>
          if bad_status statusCode then (Settled (Inl (HttpError statusCode)), s')
          else
            (case reply of
               None \<Rightarrow> (Never, halt s')
             | Some body \<Rightarrow>
                 if retval_p body \<noteq> 0 then (Settled (Inl (ApiError (retdesc_p body))), s')
                 else (Settled (Inr (content body)), s')))"

text \<open>\<^verbatim>\<open>purchaseInfo?.buyer_info?.email || null\<close>\<close>

definition purchase_email :: "purchase_info option \<Rightarrow> string option" where
  "purchase_email purchaseInfo =
     (case purchaseInfo of None \<Rightarrow> None | Some p \<Rightarrow> or_null (buyer_info_email p))"

text \<open>
  \<^verbatim>\<open>invoiceData && invoiceData.buyer_email\<close>, the test of \<^verbatim>\<open>getChatBuyerEmail\<close>: the
  email of the cache entry when there is an entry and its email is truthy.
\<close>

definition cached_email :: "invoice_data option \<Rightarrow> string option" where
  "cached_email d = (case d of None \<Rightarrow> None | Some invoiceData \<Rightarrow> or_null (buyer_email_d invoiceData))"

text \<open>
  \<^verbatim>\<open>getChatBuyerEmail\<close>: the cached email is returned when the test above passes;
  otherwise the purchase is fetched, and an entry of two properties is cached when the
  fetch succeeds. A failed fetch gives null and caches nothing. A fetch that never
  settles leaves the function waiting.
\<close>

definition getChatBuyerEmail ::
  "env \<Rightarrow> monitor \<Rightarrow> token \<Rightarrow> int \<Rightarrow> string option awaited \<times> monitor" where
  "getChatBuyerEmail e s tok chatId =
     (case cached_email (invoiceCache s chatId) of
        Some cached \<Rightarrow> (Settled (Some cached), s)
      | None \<Rightarrow>
          (case fetchInvoiceDetails e s tok chatId of
             (Never, s1) \<Rightarrow> (Never, s1)
           | (Settled (Inl err), s1) \<Rightarrow> (Settled None, s1)
           | (Settled (Inr purchaseInfo), s1) \<Rightarrow>
               (let buyerEmail = purchase_email purchaseInfo in
                (Settled buyerEmail,
                 s1\<lparr>invoiceCache := (invoiceCache s1)(chatId \<mapsto>
                      \<lparr>invoice_id_d = chatId, buyer_email_d = buyerEmail,
                       order_amount_d = None, currency_type_d = None,
                       formatted_amount_d = None, product_d = None, date_d = None\<rparr>)\<rparr>))))"

text \<open>
  \<^verbatim>\<open>fetchProduct\<close>: a cached name is returned without a request. Otherwise the three
  failures reject, and a success caches and returns the name of the body, or
  \<^verbatim>\<open>Product <id>\<close> when the body has none. The callback reads \<^verbatim>\<open>body.retval\<close>
  (line 204), which throws when the reply has no body.
\<close>

definition fetchProduct ::
  "env \<Rightarrow> monitor \<Rightarrow> token \<Rightarrow> int \<Rightarrow> (error + string) awaited \<times> monitor" where
  "fetchProduct e s tok productId =
     (case productCache s productId of
        Some cachedName \<Rightarrow> (Settled (Inr cachedName), s)
      | None \<Rightarrow>
          (let s' = request s (FetchProduct productId) in
           (case product_reply e (calls s') tok of
              Failed msg \<Rightarrow> (Settled (Inl (RequestError msg)), s')
            | Response statusCode reply \<Rightarrow>
                if bad_status statusCode then (Settled (Inl (HttpError statusCode)), s')
                else
                  (case reply of
                     None \<Rightarrow> (Never, halt s')
                   | Some body \<Rightarrow>
                       if retval_pr body \<noteq> 0
                       then (Settled (Inl (ApiError (retdesc_pr body))), s')
                       else
                         (let productName =
                                (case or_null (name_pr body) of
                                   Some n \<Rightarrow> n
                                 | None \<Rightarrow> ''Product '' @ string_of_int productId)
                          in (Settled (Inr productName),
                              s'\<lparr>productCache := (productCache s')(productId \<mapsto> productName)\<rparr>))))))"

text \<open>
  The callers' \<^verbatim>\<open>let productName = null; try { productName = await fetchProduct(..) } catch ..\<close>
\<close>

definition productName_of :: "error + string \<Rightarrow> string option" where
  "productName_of r = (case r of Inl err \<Rightarrow> None | Inr n \<Rightarrow> Some n)"

definition fetchChats :: "env \<Rightarrow> monitor \<Rightarrow> token \<Rightarrow> (error + chats_body) \<times> monitor" where
  "fetchChats e s tok =
     (let s' = request s FetchChats in
      (case chats_reply e (calls s') tok of
         Failed msg \<Rightarrow> Inl (RequestError msg)
       | Response statusCode body \<Rightarrow>
           if bad_status statusCode then Inl (HttpError statusCode) else Inr body,
       s'))"

text \<open>\<^verbatim>\<open>fetchMessages\<close> resolves \<^verbatim>\<open>body || []\<close>.\<close>

definition fetchMessages ::
  "env \<Rightarrow> monitor \<Rightarrow> token \<Rightarrow> int \<Rightarrow> nat \<Rightarrow> (error + message list) \<times> monitor" where
  "fetchMessages e s tok chatId count_n =
     (let s' = request s (FetchMessages chatId count_n) in
      (case messages_reply e (calls s') tok of
         Failed msg \<Rightarrow> Inl (RequestError msg)
       | Response statusCode body \<Rightarrow>
           if bad_status statusCode then Inl (HttpError statusCode)
           else Inr (case body of None \<Rightarrow> [] | Some ms \<Rightarrow> ms),
       s'))"

section \<open>checkNewOrders\<close>

definition emit :: "monitor \<Rightarrow> event \<Rightarrow> monitor" where
  "emit s ev = s\<lparr>events := events s @ [ev]\<rparr>"

text \<open>
  Lines 340 to 361: the amount and the currency of the purchase are put on the sale when
  both are truthy.
\<close>

definition enrich :: "sale \<Rightarrow> purchase_info option \<Rightarrow> sale" where
  "enrich sl purchaseInfo =
     (let orderAmount = (case purchaseInfo of None \<Rightarrow> None | Some p \<Rightarrow> or_null (amount p));
          currencyType = (case purchaseInfo of None \<Rightarrow> None | Some p \<Rightarrow> or_null (currency_type_p p))
      in case (orderAmount, currencyType) of
           (Some a, Some c) \<Rightarrow>
             sl\<lparr>order_amount := Some a, currency_type := Some c,
                formatted_amount := Some (a @ '' '' @ c)\<rparr>
         | _ \<Rightarrow> sl)"

text \<open>
  The body of the loop over \<^verbatim>\<open>newSales\<close> (lines 326 to 388). Without a cache entry the
  purchase is fetched inside its own \<^verbatim>\<open>try\<close>; the entry is written after the
  \<^verbatim>\<open>try\<close>, whether the fetch succeeded or not. The sale takes the four properties of
  the entry and is handed to \<^verbatim>\<open>onNewOrder\<close>. A fetch that never settles leaves the
  loop waiting: the rest of \<^verbatim>\<open>checkNewOrders\<close> is not run.
\<close>

definition notifySale :: "env \<Rightarrow> monitor \<Rightarrow> token \<Rightarrow> sale \<Rightarrow> monitor" where
  "notifySale e s tok sl =
     (case invoiceCache s (invoice_id sl) of
        None \<Rightarrow>
          (case fetchInvoiceDetails e s tok (invoice_id sl) of
             (Never, s1) \<Rightarrow> s1
           | (Settled r, s1) \<Rightarrow>
            (let buyerEmail = (case r of Inl err \<Rightarrow> None | Inr purchaseInfo \<Rightarrow> purchase_email purchaseInfo);
                 sl1 = (case r of Inl err \<Rightarrow> sl | Inr purchaseInfo \<Rightarrow> enrich sl purchaseInfo);
                 invoiceData =
                   \<lparr>invoice_id_d = invoice_id sl1, buyer_email_d = buyerEmail,
                    order_amount_d = order_amount sl1, currency_type_d = currency_type sl1,
                    formatted_amount_d = formatted_amount sl1,
                    product_d = Some (product_s sl1), date_d = Some (date sl1)\<rparr>;
                 s2 = s1\<lparr>invoiceCache := (invoiceCache s1)(invoice_id sl1 \<mapsto> invoiceData)\<rparr>
             in emit s2 (NewOrder (sl1\<lparr>buyer_email := buyer_email_d invoiceData,
                                        order_amount := order_amount_d invoiceData,
                                        currency_type := currency_type_d invoiceData,
                                        formatted_amount := formatted_amount_d invoiceData\<rparr>))))
      | Some invoiceData \<Rightarrow>
          emit s (NewOrder (sl\<lparr>buyer_email := buyer_email_d invoiceData,
                                order_amount := order_amount_d invoiceData,
                                currency_type := currency_type_d invoiceData,
                                formatted_amount := formatted_amount_d invoiceData\<rparr>)))"

fun notifySales :: "env \<Rightarrow> monitor \<Rightarrow> token \<Rightarrow> sale list \<Rightarrow> monitor" where
  "notifySales e s tok [] = s"
| "notifySales e s tok (sl # rest) =
     (let s1 = notifySale e s tok sl in
      if halted s1 then s1 else notifySales e s1 tok rest)"

text \<open>
  \<^verbatim>\<open>checkNewOrders\<close>. A rejected fetch is caught by the function's \<^verbatim>\<open>try\<close>. The last
  \<open>None\<close> branch is the \<^verbatim>\<open>-Infinity\<close> of an empty \<^verbatim>\<open>newSales\<close>; it is not reached,
  since the sale with the highest id is new (lemma \<open>newSales_max\<close> below).
\<close>

definition newSales_of :: "int \<Rightarrow> sale list \<Rightarrow> sale list" where
  "newSales_of lastKnown xs = sort_key invoice_id (filter (\<lambda>sl. invoice_id sl > lastKnown) xs)"

definition checkNewOrders :: "env \<Rightarrow> monitor \<Rightarrow> token \<Rightarrow> monitor" where
  "checkNewOrders e s tok =
     (case fetchLastSales e s tok 20 of
        (Inl err, s1) \<Rightarrow> s1
      | (Inr salesResponse, s1) \<Rightarrow>
          if retval salesResponse \<noteq> 0 then s1
          else
            (let sales_l = (case sales salesResponse of None \<Rightarrow> [] | Some xs \<Rightarrow> xs) in
             case Math_max (map invoice_id sales_l) of
               None \<Rightarrow> s1
             | Some highestInvoiceInList \<Rightarrow>
                 (case lastSaleInvoiceId s1 of
                    None \<Rightarrow> s1\<lparr>lastSaleInvoiceId := Some highestInvoiceInList\<rparr>
                  | Some lastKnown \<Rightarrow>
                      if isInitialized s1 \<and> highestInvoiceInList > lastKnown then
                        (let newSales = newSales_of lastKnown sales_l;
                             s2 = notifySales e s1 tok newSales
                         in if halted s2 then s2
                            else case Math_max (map invoice_id newSales) of
                              Some highestInvoiceId \<Rightarrow> s2\<lparr>lastSaleInvoiceId := Some highestInvoiceId\<rparr>
                            | None \<Rightarrow> s2)
                      else s1)))"

section \<open>poll\<close>

text \<open>
  The body of the loop over \<^verbatim>\<open>newChats\<close> (lines 433 to 486). It returns the chat too,
  whose \<^verbatim>\<open>email\<close> it sets. The watermark of the chat is set without a look at the
  one it may have. A product or purchase fetch that never settles leaves the body
  waiting.
\<close>

definition newChat :: "env \<Rightarrow> monitor \<Rightarrow> token \<Rightarrow> chat \<Rightarrow> monitor \<times> chat" where
  "newChat e s tok ch =
     (case fetchProduct e s tok (product_c ch) of
        (Never, s1) \<Rightarrow> (s1, ch)
      | (Settled rp, s1) \<Rightarrow>
      case getChatBuyerEmail e s1 tok (id_i ch) of
        (Never, s2) \<Rightarrow> (s2, ch)
      | (Settled buyerEmail, s2) \<Rightarrow>
      case fetchMessages e s2 tok (id_i ch) 200 of (rm, s3) \<Rightarrow>
        (let productName = productName_of rp;
             ch1 = ch\<lparr>email := buyerEmail\<rparr>;
             initialMessages = (case rm of Inl err \<Rightarrow> [] | Inr allMessages \<Rightarrow> sort_key id_m allMessages);
             s4 = emit s3 (NewChat ch1 productName)
         in if length initialMessages > 0 then
              ((emit s4 (NewMessages ch1 (length initialMessages) initialMessages productName))
                 \<lparr>lastMessageIds := (lastMessageIds s4)(id_i ch \<mapsto> id_m (last initialMessages))\<rparr>, ch1)
            else (s4\<lparr>lastMessageIds := (lastMessageIds s4)(id_i ch \<mapsto> 0)\<rparr>, ch1)))"

fun newChats :: "env \<Rightarrow> monitor \<Rightarrow> token \<Rightarrow> chat list \<Rightarrow> monitor \<times> chat list" where
  "newChats e s tok [] = (s, [])"
| "newChats e s tok (ch # rest) =
     (case newChat e s tok ch of (s1, ch1) \<Rightarrow>
      if halted s1 then (s1, ch1 # rest)
      else case newChats e s1 tok rest of (s2, rest1) \<Rightarrow> (s2, ch1 # rest1))"

text \<open>
  The body of the loop over all chats (lines 496 to 563), inside its own \<^verbatim>\<open>try\<close>.
  The chat it changes before the handler call is not read again, so only the state is
  returned.
\<close>

definition checkChat :: "env \<Rightarrow> monitor \<Rightarrow> token \<Rightarrow> chat \<Rightarrow> monitor" where
  "checkChat e s tok ch =
     (let chatId = id_i ch in
      case fetchMessages e s tok chatId 200 of
        (Inl err, s1) \<Rightarrow> s1
      | (Inr fetched, s1) \<Rightarrow>
          if length fetched = 0 then s1
          else
            (let allMessages = sort_key id_m fetched;
                 latestMessageId = id_m (last allMessages)
             in case lastMessageIds s1 chatId of
                  None \<Rightarrow> s1\<lparr>lastMessageIds := (lastMessageIds s1)(chatId \<mapsto> latestMessageId)\<rparr>
                | Some lastKnownMessageId \<Rightarrow>
                    if latestMessageId > lastKnownMessageId then
                      (let newMessages = filter (\<lambda>msg. id_m msg > lastKnownMessageId) allMessages in
                       if length newMessages > 0 then
                         (case fetchProduct e s1 tok (product_c ch) of
                            (Never, s2) \<Rightarrow> s2
                          | (Settled rp, s2) \<Rightarrow>
                          case getChatBuyerEmail e s2 tok chatId of
                            (Never, s3) \<Rightarrow> s3
                          | (Settled buyerEmail, s3) \<Rightarrow>
                            (let productName = productName_of rp;
                                 ch1 = ch\<lparr>email := buyerEmail\<rparr>;
                                 ch2 = (case cnt_msg ch1 of
                                          None \<Rightarrow> ch1
                                        | Some n \<Rightarrow> if n = 0 then ch1
                                                    else ch1\<lparr>cnt_msg := Some (length allMessages)\<rparr>);
                                 s4 = emit s3 (NewMessages ch2 (length newMessages) newMessages productName)
                             in s4\<lparr>lastMessageIds := (lastMessageIds s4)(chatId \<mapsto> latestMessageId)\<rparr>))
                       else s1)
                    else s1))"

fun checkChats :: "env \<Rightarrow> monitor \<Rightarrow> token \<Rightarrow> chat list \<Rightarrow> monitor" where
  "checkChats e s tok [] = s"
| "checkChats e s tok (ch # rest) =
     (let s1 = checkChat e s tok ch in
      if halted s1 then s1 else checkChats e s1 tok rest)"

text \<open>
  What \<^verbatim>\<open>poll\<close> does with the chat list once it has it: the new chats, when the count
  has grown from a positive count, then every chat, then the count.
\<close>

definition pollChats :: "env \<Rightarrow> monitor \<Rightarrow> token \<Rightarrow> chat list \<Rightarrow> monitor" where
  "pollChats e s tok chats =
     (let currentChatCount = length chats in
      case (if lastChatCount s > 0 \<and> currentChatCount > lastChatCount s then
              (let newChatsCount = currentChatCount - lastChatCount s in
               case newChats e s tok (take newChatsCount chats) of
                 (s1, flagged) \<Rightarrow> (s1, flagged @ drop newChatsCount chats))
            else (s, chats)) of
        (s1, chats1) \<Rightarrow>
          if halted s1 then s1
          else (let s2 = checkChats e s1 tok chats1 in
                if halted s2 then s2 else s2\<lparr>lastChatCount := currentChatCount\<rparr>))"

text \<open>
  The \<^verbatim>\<open>try\<close> of \<^verbatim>\<open>poll\<close>: a rejected \<^verbatim>\<open>getToken\<close> or \<^verbatim>\<open>fetchChats\<close> leaves it for the
  \<^verbatim>\<open>catch\<close>, and what follows in the \<^verbatim>\<open>try\<close> is not run.
\<close>

definition pollTry :: "env \<Rightarrow> monitor \<Rightarrow> monitor" where
  "pollTry e s =
     (case getToken e s of
        (Inl err, s1) \<Rightarrow> s1
      | (Inr tok, s1) \<Rightarrow>
          (let s2 = checkNewOrders e s1 tok in
           if halted s2 then s2
           else case fetchChats e s2 tok of
             (Inl err, s3) \<Rightarrow> s3
           | (Inr chatsResponse, s3) \<Rightarrow>
               pollChats e s3 tok (case items chatsResponse of None \<Rightarrow> [] | Some cs \<Rightarrow> cs)))"

text \<open>
  \<^verbatim>\<open>poll\<close>: nothing when the monitor is stopped; otherwise the \<^verbatim>\<open>try\<close>, the flag
  \<^verbatim>\<open>isInitialized\<close>, and the next poll, scheduled when the monitor is still running
  (the boolean of the result). When the \<^verbatim>\<open>try\<close> was left waiting by an exception in
  a request callback, neither the flag is set nor the next poll scheduled.
\<close>

definition poll :: "env \<Rightarrow> monitor \<Rightarrow> monitor \<times> bool" where
  "poll e s =
     (if \<not> isRunning s then (s, False)
      else
        (let s1 = pollTry e s in
         if halted s1 then (s1, False)
         else
           (let s2 = (if \<not> isInitialized s1 then s1\<lparr>isInitialized := True\<rparr> else s1)
            in (s2, isRunning s2))))"

section \<open>The constructor and start\<close>

definition new_monitor :: "nat option \<Rightarrow> monitor" where
  "new_monitor interval =
     \<lparr>pollingInterval = (case interval of None \<Rightarrow> 90000 | Some n \<Rightarrow> if n = 0 then 90000 else n),
      isRunning = False, isInitialized = False, lastChatCount = 0,
      lastMessageCounts = Map.empty, lastMessageIds = Map.empty,
      productCache = Map.empty, invoiceCache = Map.empty,
      lastSaleInvoiceId = None, calls = [], events = [], halted = False\<rparr>"

text \<open>The loop of \<^verbatim>\<open>start\<close> over the chats: the message counts, and the product names.\<close>

fun preload :: "env \<Rightarrow> monitor \<Rightarrow> token \<Rightarrow> chat list \<Rightarrow> monitor" where
  "preload e s tok [] = s"
| "preload e s tok (ch # rest) =
     (let s1 = s\<lparr>lastMessageCounts := (lastMessageCounts s)(id_i ch \<mapsto>
                   (case cnt_msg ch of None \<Rightarrow> 0 | Some n \<Rightarrow> n))\<rparr>;
          s2 = snd (fetchProduct e s1 tok (product_c ch))
      in if halted s2 then s2 else preload e s2 tok rest)"

text \<open>The \<^verbatim>\<open>try\<close> of \<^verbatim>\<open>start\<close>: the baseline of the last sale and of the chat count.\<close>

definition startTry :: "env \<Rightarrow> monitor \<Rightarrow> monitor" where
  "startTry e s =
     (case getToken e s of
        (Inl err, s1) \<Rightarrow> s1
      | (Inr tok, s1) \<Rightarrow>
          (case fetchLastSales e s1 tok 1 of
             (Inl err, s2) \<Rightarrow> s2
           | (Inr salesResponse, s2) \<Rightarrow>
               (let s3 = (case sales salesResponse of
                            Some (first # others) \<Rightarrow>
                              if retval salesResponse = 0
                              then s2\<lparr>lastSaleInvoiceId := Some (invoice_id first)\<rparr> else s2
                          | _ \<Rightarrow> s2)
                in case fetchChats e s3 tok of
                     (Inl err, s4) \<Rightarrow> s4
                   | (Inr chatsResponse, s4) \<Rightarrow>
                       (let chats = (case items chatsResponse of None \<Rightarrow> [] | Some cs \<Rightarrow> cs)
                        in preload e (s4\<lparr>lastChatCount := length chats\<rparr>) tok chats))))"

definition start :: "env \<Rightarrow> monitor \<Rightarrow> monitor \<times> bool" where
  "start e s =
     (if isRunning s then (s, False)
      else
        (let s1 = startTry e (s\<lparr>isRunning := True\<rparr>) in
         if halted s1 then (s1, False) else poll e s1))"

section \<open>The reply that makes a request callback throw\<close>

text \<open>
  The last request of a log is a purchase or a product request, and the reply to it has
  a status from 200 to 299 and no body: the reply at which \<^verbatim>\<open>body.retval\<close> throws
  (lines 141 and 204).
\<close>

definition bodyless :: "env \<Rightarrow> token \<Rightarrow> call list \<Rightarrow> bool" where
  "bodyless e tok h =
     (case rev h of
        FetchInvoiceDetails invoiceId # earlier \<Rightarrow>
          (case purchase_reply e h tok of
             Response statusCode None \<Rightarrow> \<not> bad_status statusCode
           | _ \<Rightarrow> False)
      | FetchProduct productId # earlier \<Rightarrow>
          (case product_reply e h tok of
             Response statusCode None \<Rightarrow> \<not> bad_status statusCode
           | _ \<Rightarrow> False)
      | _ \<Rightarrow> False)"

section \<open>Sample data\<close>

text \<open>
  A remote side for the examples: the sales, the chats and the messages of each chat are
  given by their ids; every purchase has a buyer and an amount, every product a name. The
  messages served are those of the chat the last request names.
\<close>

definition sale_of :: "int \<Rightarrow> sale" where
  "sale_of i = \<lparr>invoice_id = i, product_s = ''Game key'', date = ''2024-05-01'',
     buyer_email = None, order_amount = None, currency_type = None, formatted_amount = None\<rparr>"

definition chat_of :: "int \<Rightarrow> chat" where
  "chat_of i = \<lparr>id_c = 0, id_i = i, product_c = 7, email = None, cnt_msg = None,
     cnt_new = None, last_message = []\<rparr>"

definition message_of :: "int \<Rightarrow> message" where
  "message_of i = \<lparr>id_m = i, message_m = ''hello'', buyer = True\<rparr>"

definition messages_for :: "(int \<Rightarrow> int list) \<Rightarrow> call list \<Rightarrow> message list option http" where
  "messages_for f h =
     (case rev h of
        FetchMessages c n # earlier \<Rightarrow> Response 200 (Some (map message_of (f c)))
      | _ \<Rightarrow> Failed ''no request'')"

definition shop :: "int list \<Rightarrow> int list \<Rightarrow> (int \<Rightarrow> int list) \<Rightarrow> env" where
  "shop sale_ids chat_ids msgs =
     \<lparr>token_reply = (\<lambda>h. Inr ''token''),
      sales_reply = (\<lambda>h tok. Response 200
         \<lparr>retval = 0, retdesc = [], sales = Some (map sale_of sale_ids)\<rparr>),
      purchase_reply = (\<lambda>h tok. Response 200 (Some \<lparr>retval_p = 0, retdesc_p = [],
         content = Some \<lparr>buyer_info_email = Some ''buyer@example.com'', amount = Some ''9.99'',
                         currency_type_p = Some ''USD''\<rparr>\<rparr>)),
      product_reply = (\<lambda>h tok. Response 200
         (Some \<lparr>retval_pr = 0, retdesc_pr = [], name_pr = Some ''Game key''\<rparr>)),
      chats_reply = (\<lambda>h tok. Response 200 \<lparr>items = Some (map chat_of chat_ids)\<rparr>),
      messages_reply = (\<lambda>h tok. messages_for msgs h)\<rparr>"

text \<open>A running monitor with the given watermarks and empty caches.\<close>

definition running :: "int option \<Rightarrow> nat \<Rightarrow> (int \<rightharpoonup> int) \<Rightarrow> bool \<Rightarrow> monitor" where
  "running lastSale chatCount marks initialized =
     \<lparr>pollingInterval = 90000, isRunning = True, isInitialized = initialized,
      lastChatCount = chatCount, lastMessageCounts = Map.empty, lastMessageIds = marks,
      productCache = Map.empty, invoiceCache = Map.empty, lastSaleInvoiceId = lastSale,
      calls = [], events = [], halted = False\<rparr>"

text \<open>
  The remote side of a launch: at the start the last sale is invoice 100 and three chats
  are listed; from the first poll on the sales are 100 and 101 and the chat of order 101,
  with the messages 1 and 2, is listed first.
\<close>

definition launch :: env where
  "launch =
     (shop [100, 101] [101, 11, 12, 13] (\<lambda>c. if c = 101 then [1, 2] else []))
       \<lparr>sales_reply := (\<lambda>h tok. Response 200 \<lparr>retval = 0, retdesc = [],
            sales = Some (if FetchLastSales 20 \<in> set h then [sale_of 100, sale_of 101]
                          else [sale_of 100])\<rparr>),
        chats_reply := (\<lambda>h tok. Response 200
           \<lparr>items = Some (if FetchLastSales 20 \<in> set h then map chat_of [101, 11, 12, 13]
                           else map chat_of [11, 12, 13])\<rparr>)\<rparr>"

text \<open>An invoice cache entry as \<^verbatim>\<open>getChatBuyerEmail\<close> writes it.\<close>

definition entry_of :: "int \<Rightarrow> string option \<Rightarrow> invoice_data" where
  "entry_of c em = \<lparr>invoice_id_d = c, buyer_email_d = em, order_amount_d = None,
     currency_type_d = None, formatted_amount_d = None, product_d = None, date_d = None\<rparr>"

text \<open>Remote sides on which one endpoint times out, or the token is refused.\<close>

definition purchases_down :: "env \<Rightarrow> env" where
  "purchases_down e = e\<lparr>purchase_reply := (\<lambda>h tok. Failed ''ETIMEDOUT'')\<rparr>"




definition purchases_bodyless :: "env \<Rightarrow> env" where
  "purchases_bodyless e = e\<lparr>purchase_reply := (\<lambda>h tok. Response 200 None)\<rparr>"



definition messages_down :: "env \<Rightarrow> env" where
  "messages_down e = e\<lparr>messages_reply := (\<lambda>h tok. Failed ''ETIMEDOUT'')\<rparr>"




section \<open>Fetchers: the request sent and the state left\<close>

lemma Math_max_Max: "xs \<noteq> [] \<Longrightarrow> Math_max xs = Some (Max (set xs))"
proof (cases xs)
  case Nil
  assume "xs \<noteq> []"
  with Nil show ?thesis by simp
next
  case (Cons a list)
  then show ?thesis by (simp only: Math_max.simps Max.set_eq_fold)
qed

lemma request_fields:
  "calls (request s c) = calls s @ [c]"
  "events (request s c) = events s"
  "lastMessageIds (request s c) = lastMessageIds s"
  "lastSaleInvoiceId (request s c) = lastSaleInvoiceId s"
  "lastChatCount (request s c) = lastChatCount s"
  "isInitialized (request s c) = isInitialized s"
  "isRunning (request s c) = isRunning s"
  "productCache (request s c) = productCache s"
  "invoiceCache (request s c) = invoiceCache s"
  "halted (request s c) = halted s"
  by (simp_all add: request_def)

lemma halt_fields:
  "calls (halt s) = calls s"
  "events (halt s) = events s"
  "lastMessageIds (halt s) = lastMessageIds s"
  "lastSaleInvoiceId (halt s) = lastSaleInvoiceId s"
  "lastChatCount (halt s) = lastChatCount s"
  "isInitialized (halt s) = isInitialized s"
  "isRunning (halt s) = isRunning s"
  "productCache (halt s) = productCache s"
  "invoiceCache (halt s) = invoiceCache s"
  "halted (halt s)"
  by (simp_all add: halt_def)

lemma snd_fetchLastSales: "snd (fetchLastSales e s tok n) = request s (FetchLastSales n)"
  by (simp add: fetchLastSales_def Let_def)

lemma snd_fetchChats: "snd (fetchChats e s tok) = request s FetchChats"
  by (simp add: fetchChats_def Let_def)

lemma snd_fetchMessages: "snd (fetchMessages e s tok c n) = request s (FetchMessages c n)"
  by (simp add: fetchMessages_def Let_def)

lemma snd_getToken: "snd (getToken e s) = request s GetToken"
  by (simp add: getToken_def Let_def)

lemma fetchLastSales_eq:
  "fst (fetchLastSales e s tok n) = r \<Longrightarrow>
   fetchLastSales e s tok n = (r, request s (FetchLastSales n))"
  using snd_fetchLastSales [of e s tok n] by (cases "fetchLastSales e s tok n") simp

lemma fetchChats_eq:
  "fst (fetchChats e s tok) = r \<Longrightarrow> fetchChats e s tok = (r, request s FetchChats)"
  using snd_fetchChats [of e s tok] by (cases "fetchChats e s tok") simp

lemma fetchMessages_eq:
  "fst (fetchMessages e s tok c n) = r \<Longrightarrow>
   fetchMessages e s tok c n = (r, request s (FetchMessages c n))"
  using snd_fetchMessages [of e s tok c n] by (cases "fetchMessages e s tok c n") simp

lemma getToken_eq:
  "fst (getToken e s) = r \<Longrightarrow> getToken e s = (r, request s GetToken)"
  using snd_getToken [of e s] by (cases "getToken e s") simp

text \<open>
  The purchase and the product fetch: a fetch that settles leaves the state of the
  request; the one that never settles leaves it halted. Both settle on a remote side whose
  replies carry a body.
\<close>

lemma fetchInvoiceDetails_eq:
  "fst (fetchInvoiceDetails e s tok c) = Settled r \<Longrightarrow>
   fetchInvoiceDetails e s tok c = (Settled r, request s (FetchInvoiceDetails c))"
  by (auto simp: fetchInvoiceDetails_def Let_def split: http.splits option.splits if_splits)

lemma fetchInvoiceDetails_cases:
  "(\<exists>r. fetchInvoiceDetails e s tok c = (Settled r, request s (FetchInvoiceDetails c))) \<or>
   fetchInvoiceDetails e s tok c = (Never, halt (request s (FetchInvoiceDetails c)))"
  by (auto simp: fetchInvoiceDetails_def Let_def split: http.splits option.splits)

lemma fetchInvoiceDetails_Never:
  "fst (fetchInvoiceDetails e s tok c) = Never \<longleftrightarrow>
   (\<exists>statusCode. purchase_reply e (calls s @ [FetchInvoiceDetails c]) tok = Response statusCode None \<and>
      \<not> bad_status statusCode)"
  by (auto simp: fetchInvoiceDetails_def request_fields Let_def split: http.splits option.splits)

lemma fetchInvoiceDetails_settles:
  assumes "\<And>h statusCode. purchase_reply e h tok \<noteq> Response statusCode None"
  shows "\<exists>r. fetchInvoiceDetails e s tok c = (Settled r, request s (FetchInvoiceDetails c))"
  using fetchInvoiceDetails_cases [of e s tok c] fetchInvoiceDetails_Never [of e s tok c] assms
  by auto

lemma fetchProduct_cases:
  "(\<exists>r. fetchProduct e s tok p = (Settled r, s)) \<or>
   (\<exists>r. fetchProduct e s tok p = (Settled (Inl r), request s (FetchProduct p))) \<or>
   (\<exists>n. fetchProduct e s tok p =
      (Settled (Inr n), (request s (FetchProduct p))\<lparr>productCache := (productCache s)(p \<mapsto> n)\<rparr>)) \<or>
   fetchProduct e s tok p = (Never, halt (request s (FetchProduct p)))"
  by (auto simp: fetchProduct_def request_fields Let_def split: http.splits option.splits)

lemma fetchProduct_Never:
  "fst (fetchProduct e s tok p) = Never \<longleftrightarrow>
   (productCache s p = None \<and>
    (\<exists>statusCode. product_reply e (calls s @ [FetchProduct p]) tok = Response statusCode None \<and>
       \<not> bad_status statusCode))"
  by (auto simp: fetchProduct_def request_fields Let_def split: http.splits option.splits)

lemma fetchProduct_settles:
  assumes "\<And>h statusCode. product_reply e h tok \<noteq> Response statusCode None"
  shows "\<exists>r. fst (fetchProduct e s tok p) = Settled r"
    and "halted (snd (fetchProduct e s tok p)) = halted s"
proof -
  have n: "fst (fetchProduct e s tok p) \<noteq> Never"
    using fetchProduct_Never [of e s tok p] assms by auto
  then show "\<exists>r. fst (fetchProduct e s tok p) = Settled r"
    by (cases "fst (fetchProduct e s tok p)") auto
  show "halted (snd (fetchProduct e s tok p)) = halted s"
    using fetchProduct_cases [of e s tok p] n by (auto simp: request_fields)
qed

lemma fetchProduct_frame:
  "events (snd (fetchProduct e s tok p)) = events s"
  "lastMessageIds (snd (fetchProduct e s tok p)) = lastMessageIds s"
  "lastSaleInvoiceId (snd (fetchProduct e s tok p)) = lastSaleInvoiceId s"
  "lastChatCount (snd (fetchProduct e s tok p)) = lastChatCount s"
  "isInitialized (snd (fetchProduct e s tok p)) = isInitialized s"
  "isRunning (snd (fetchProduct e s tok p)) = isRunning s"
  "invoiceCache (snd (fetchProduct e s tok p)) = invoiceCache s"
  using fetchProduct_cases [of e s tok p]
  by (auto simp: request_fields halt_fields)

lemma fetchProduct_calls_mono: "set (calls s) \<subseteq> set (calls (snd (fetchProduct e s tok p)))"
  using fetchProduct_cases [of e s tok p]
  by (auto simp: request_fields halt_fields)

section \<open>getChatBuyerEmail\<close>

lemma truthy_iff: "truthy x \<longleftrightarrow> (\<exists>v. x = Some v \<and> v \<noteq> [])"
  by (cases x) auto

lemma not_truthy_iff: "\<not> truthy x \<longleftrightarrow> (x = None \<or> x = Some [])"
  by (cases x) auto

lemma cached_email_Some:
  "cached_email d = Some em \<longleftrightarrow> (\<exists>x. d = Some x \<and> buyer_email_d x = Some em \<and> em \<noteq> [])"
  by (cases d) (auto simp: cached_email_def or_null_def split: if_splits option.splits)

lemma cached_email_None:
  "cached_email d = None \<longleftrightarrow>
     (d = None \<or> (\<exists>x. d = Some x \<and> (buyer_email_d x = None \<or> buyer_email_d x = Some [])))"
  by (cases d) (auto simp: cached_email_def or_null_def not_truthy_iff split: if_splits)

lemma getChatBuyerEmail_cached:
  assumes "cached_email (invoiceCache s c) = Some em"
  shows "getChatBuyerEmail e s tok c = (Settled (Some em), s)"
  using assms by (simp add: getChatBuyerEmail_def)

lemma getChatBuyerEmail_calls:
  assumes "cached_email (invoiceCache s c) = None"
  shows "calls (snd (getChatBuyerEmail e s tok c)) = calls s @ [FetchInvoiceDetails c]"
  using assms fetchInvoiceDetails_cases [of e s tok c]
  by (auto simp: getChatBuyerEmail_def request_fields halt_fields Let_def split: sum.splits)

lemma getChatBuyerEmail_fetched:
  assumes "cached_email (invoiceCache s c) = None"
    and "fst (fetchInvoiceDetails e s tok c) = Settled (Inr info)"
  shows "getChatBuyerEmail e s tok c =
     (Settled (purchase_email info),
      (request s (FetchInvoiceDetails c))\<lparr>invoiceCache := (invoiceCache s)(c \<mapsto>
         \<lparr>invoice_id_d = c, buyer_email_d = purchase_email info, order_amount_d = None,
          currency_type_d = None, formatted_amount_d = None, product_d = None, date_d = None\<rparr>)\<rparr>)"
  using assms(1)
  by (simp add: getChatBuyerEmail_def fetchInvoiceDetails_eq [OF assms(2)] request_fields Let_def)

lemma getChatBuyerEmail_failed:
  assumes "cached_email (invoiceCache s c) = None"
    and "fst (fetchInvoiceDetails e s tok c) = Settled (Inl err)"
  shows "getChatBuyerEmail e s tok c = (Settled None, request s (FetchInvoiceDetails c))"
  using assms(1)
  by (simp add: getChatBuyerEmail_def fetchInvoiceDetails_eq [OF assms(2)])

lemma getChatBuyerEmail_Never:
  "fst (getChatBuyerEmail e s tok c) = Never \<longleftrightarrow>
   (cached_email (invoiceCache s c) = None \<and> fst (fetchInvoiceDetails e s tok c) = Never)"
  using fetchInvoiceDetails_cases [of e s tok c]
  by (auto simp: getChatBuyerEmail_def Let_def split: option.splits sum.splits)

lemma getChatBuyerEmail_settles:
  assumes "\<And>h statusCode. purchase_reply e h tok \<noteq> Response statusCode None"
  shows "\<exists>r. fst (getChatBuyerEmail e s tok c) = Settled r"
    and "halted (snd (getChatBuyerEmail e s tok c)) = halted s"
proof -
  obtain r where f: "fetchInvoiceDetails e s tok c = (Settled r, request s (FetchInvoiceDetails c))"
    using fetchInvoiceDetails_settles [OF assms] by blast
  show "\<exists>r. fst (getChatBuyerEmail e s tok c) = Settled r"
    by (auto simp: getChatBuyerEmail_def f Let_def split: option.splits sum.splits)
  show "halted (snd (getChatBuyerEmail e s tok c)) = halted s"
    by (auto simp: getChatBuyerEmail_def f Let_def request_fields split: option.splits sum.splits)
qed

lemma getChatBuyerEmail_frame:
  "events (snd (getChatBuyerEmail e s tok c)) = events s"
  "lastMessageIds (snd (getChatBuyerEmail e s tok c)) = lastMessageIds s"
  "lastSaleInvoiceId (snd (getChatBuyerEmail e s tok c)) = lastSaleInvoiceId s"
  "lastChatCount (snd (getChatBuyerEmail e s tok c)) = lastChatCount s"
  "isInitialized (snd (getChatBuyerEmail e s tok c)) = isInitialized s"
  "isRunning (snd (getChatBuyerEmail e s tok c)) = isRunning s"
  "productCache (snd (getChatBuyerEmail e s tok c)) = productCache s"
  using fetchInvoiceDetails_cases [of e s tok c]
  by (auto simp: getChatBuyerEmail_def request_fields halt_fields Let_def
        split: option.splits sum.splits)

lemma getChatBuyerEmail_calls_mono:
  "set (calls s) \<subseteq> set (calls (snd (getChatBuyerEmail e s tok c)))"
  using fetchInvoiceDetails_cases [of e s tok c]
  by (auto simp: getChatBuyerEmail_def request_fields halt_fields Let_def
        split: option.splits sum.splits)

text \<open>
  Claim C10. For every chat key, \<^verbatim>\<open>getChatBuyerEmail\<close> answers without a request only
  when the cache has an entry for the key whose \<^verbatim>\<open>buyer_email\<close> is not null, and it
  then returns that email. An entry whose \<^verbatim>\<open>buyer_email\<close> is null is passed over: the
  purchase is requested again, in whatever state the call is made, and a successful
  request overwrites the entry.
\<close>

theorem buyer_email_cache_bypassed_when_null:
  "(calls (snd (getChatBuyerEmail e s tok c)) = calls s \<longrightarrow>
      (\<exists>d em. invoiceCache s c = Some d \<and> buyer_email_d d = Some em \<and>
               fst (getChatBuyerEmail e s tok c) = Settled (Some em))) \<and>
   ((\<exists>d. invoiceCache s c = Some d \<and> buyer_email_d d = None) \<longrightarrow>
      calls (snd (getChatBuyerEmail e s tok c)) = calls s @ [FetchInvoiceDetails c] \<and>
      (\<forall>info. fst (fetchInvoiceDetails e s tok c) = Settled (Inr info) \<longrightarrow>
         fst (getChatBuyerEmail e s tok c) = Settled (purchase_email info) \<and>
         invoiceCache (snd (getChatBuyerEmail e s tok c)) c =
           Some \<lparr>invoice_id_d = c, buyer_email_d = purchase_email info, order_amount_d = None,
                 currency_type_d = None, formatted_amount_d = None, product_d = None,
                 date_d = None\<rparr>))"
proof (intro conjI impI)
  assume nc: "calls (snd (getChatBuyerEmail e s tok c)) = calls s"
  show "\<exists>d em. invoiceCache s c = Some d \<and> buyer_email_d d = Some em \<and>
               fst (getChatBuyerEmail e s tok c) = Settled (Some em)"
  proof (cases "cached_email (invoiceCache s c)")
    case None
    from getChatBuyerEmail_calls [OF None, of e tok] nc show ?thesis by simp
  next
    case (Some em)
    then obtain d where "invoiceCache s c = Some d" "buyer_email_d d = Some em"
      by (auto simp: cached_email_Some)
    then show ?thesis using getChatBuyerEmail_cached [OF Some, of e tok] by simp
  qed
next
  assume "\<exists>d. invoiceCache s c = Some d \<and> buyer_email_d d = None"
  then have n: "cached_email (invoiceCache s c) = None" by (auto simp: cached_email_None)
  show "calls (snd (getChatBuyerEmail e s tok c)) = calls s @ [FetchInvoiceDetails c]"
    by (rule getChatBuyerEmail_calls [OF n])
  show "\<forall>info. fst (fetchInvoiceDetails e s tok c) = Settled (Inr info) \<longrightarrow>
         fst (getChatBuyerEmail e s tok c) = Settled (purchase_email info) \<and>
         invoiceCache (snd (getChatBuyerEmail e s tok c)) c =
           Some \<lparr>invoice_id_d = c, buyer_email_d = purchase_email info, order_amount_d = None,
                 currency_type_d = None, formatted_amount_d = None, product_d = None,
                 date_d = None\<rparr>"
    by (auto simp: getChatBuyerEmail_fetched [OF n])
qed

text \<open>
  An entry with an email is answered from the cache; an entry with a null email sends the
  request, and the entry is overwritten.
\<close>

theorem buyer_email_cache_bypassed_when_null_witness:
  "calls (snd (getChatBuyerEmail (shop [] [] (\<lambda>c. []))
      ((running None 0 Map.empty True)\<lparr>invoiceCache := [101 \<mapsto> entry_of 101 (Some ''old@example.com'')]\<rparr>)
      ''token'' 101)) = [] \<and>
   fst (getChatBuyerEmail (shop [] [] (\<lambda>c. []))
      ((running None 0 Map.empty True)\<lparr>invoiceCache := [101 \<mapsto> entry_of 101 (Some ''old@example.com'')]\<rparr>)
      ''token'' 101) = Settled (Some ''old@example.com'') \<and>
   calls (snd (getChatBuyerEmail (shop [] [] (\<lambda>c. []))
      ((running None 0 Map.empty True)\<lparr>invoiceCache := [101 \<mapsto> entry_of 101 None]\<rparr>)
      ''token'' 101)) = [FetchInvoiceDetails 101] \<and>
   fst (getChatBuyerEmail (shop [] [] (\<lambda>c. []))
      ((running None 0 Map.empty True)\<lparr>invoiceCache := [101 \<mapsto> entry_of 101 None]\<rparr>)
      ''token'' 101) = Settled (Some ''buyer@example.com'') \<and>
   invoiceCache (snd (getChatBuyerEmail (shop [] [] (\<lambda>c. []))
      ((running None 0 Map.empty True)\<lparr>invoiceCache := [101 \<mapsto> entry_of 101 None]\<rparr>)
      ''token'' 101)) 101 = Some (entry_of 101 (Some ''buyer@example.com''))"
proof -
  let ?e = "shop [] [] (\<lambda>c. [])"
  let ?a = "(running None 0 Map.empty True)\<lparr>invoiceCache := [101 \<mapsto> entry_of 101 (Some ''old@example.com'')]\<rparr>"
  let ?b = "(running None 0 Map.empty True)\<lparr>invoiceCache := [101 \<mapsto> entry_of 101 None]\<rparr>"
  let ?info = "Some \<lparr>buyer_info_email = Some ''buyer@example.com'', amount = Some ''9.99'',
                         currency_type_p = Some ''USD''\<rparr>"
  have ca: "calls ?a = []" and cb: "calls ?b = []" by (simp_all add: running_def)
  have h1: "calls (snd (getChatBuyerEmail ?e ?a ''token'' 101)) = calls ?a"
    by (simp add: getChatBuyerEmail_def cached_email_def entry_of_def or_null_def)
  have ia: "invoiceCache ?a 101 = Some (entry_of 101 (Some ''old@example.com''))" by simp
  have h2: "\<exists>d. invoiceCache ?b 101 = Some d \<and> buyer_email_d d = None"
    by (simp add: entry_of_def)
  have h3: "fst (fetchInvoiceDetails ?e ?b ''token'' 101) = Settled (Inr ?info)"
    by (simp add: fetchInvoiceDetails_def shop_def request_def bad_status_def)
  have pe: "purchase_email ?info = Some ''buyer@example.com''"
    by (simp add: purchase_email_def or_null_def)
  note t1 = buyer_email_cache_bypassed_when_null [of ?e ?a "''token''" 101, THEN conjunct1, rule_format, OF h1]
  note t2 = buyer_email_cache_bypassed_when_null [of ?e ?b "''token''" 101, THEN conjunct2, rule_format, OF h2]
  from t1 ia have r1: "fst (getChatBuyerEmail ?e ?a ''token'' 101) = Settled (Some ''old@example.com'')"
    by (auto simp: entry_of_def)
  from t2 have r2: "calls (snd (getChatBuyerEmail ?e ?b ''token'' 101)) = calls ?b @ [FetchInvoiceDetails 101]"
    by blast
  from t2 h3 have r3: "fst (getChatBuyerEmail ?e ?b ''token'' 101) = Settled (purchase_email ?info) \<and>
         invoiceCache (snd (getChatBuyerEmail ?e ?b ''token'' 101)) 101 =
           Some \<lparr>invoice_id_d = 101, buyer_email_d = purchase_email ?info, order_amount_d = None,
                 currency_type_d = None, formatted_amount_d = None, product_d = None,
                 date_d = None\<rparr>"
    by blast
  have c1: "calls (snd (getChatBuyerEmail ?e ?a ''token'' 101)) = []"
    using h1 by (simp only: ca)
  have c2: "calls (snd (getChatBuyerEmail ?e ?b ''token'' 101)) = [FetchInvoiceDetails 101]"
    using r2 by (simp only: cb append_Nil)
  have c3: "fst (getChatBuyerEmail ?e ?b ''token'' 101) = Settled (Some ''buyer@example.com'')"
    using r3 by (simp only: pe)
  have c4: "invoiceCache (snd (getChatBuyerEmail ?e ?b ''token'' 101)) 101 =
      Some (entry_of 101 (Some ''buyer@example.com''))"
    using r3 by (simp only: pe entry_of_def)
  show ?thesis
    using c1 r1 c2 c3 c4 by (intro conjI)
qed


section \<open>checkNewOrders: one event for each new sale\<close>

lemma notifySale_frame:
  "lastSaleInvoiceId (notifySale e s tok sl) = lastSaleInvoiceId s \<and>
   isInitialized (notifySale e s tok sl) = isInitialized s \<and>
   isRunning (notifySale e s tok sl) = isRunning s \<and>
   lastChatCount (notifySale e s tok sl) = lastChatCount s \<and>
   lastMessageIds (notifySale e s tok sl) = lastMessageIds s \<and>
   productCache (notifySale e s tok sl) = productCache s"
  using fetchInvoiceDetails_cases [of e s tok "invoice_id sl"]
  by (auto simp: notifySale_def emit_def request_fields halt_fields Let_def
           split: option.splits sum.splits)

lemma notifySale_events_cases:
  "events (notifySale e s tok sl) = events s \<or>
   (\<exists>sl'. events (notifySale e s tok sl) = events s @ [NewOrder sl'] \<and>
          invoice_id sl' = invoice_id sl)"
  using fetchInvoiceDetails_cases [of e s tok "invoice_id sl"]
  by (auto simp: notifySale_def emit_def request_fields halt_fields enrich_def Let_def
           split: option.splits sum.splits)

text \<open>When the purchase fetch settles, or the entry is cached, the handler is called.\<close>

lemma notifySale_events:
  assumes "\<And>h statusCode. purchase_reply e h tok \<noteq> Response statusCode None"
  shows "\<exists>sl'. events (notifySale e s tok sl) = events s @ [NewOrder sl'] \<and>
              invoice_id sl' = invoice_id sl"
    and "halted (notifySale e s tok sl) = halted s"
proof -
  obtain r where f: "fetchInvoiceDetails e s tok (invoice_id sl) =
      (Settled r, request s (FetchInvoiceDetails (invoice_id sl)))"
    using fetchInvoiceDetails_settles [OF assms] by blast
  show "\<exists>sl'. events (notifySale e s tok sl) = events s @ [NewOrder sl'] \<and>
              invoice_id sl' = invoice_id sl"
    by (auto simp: notifySale_def f emit_def request_fields enrich_def Let_def
          split: option.splits sum.splits)
  show "halted (notifySale e s tok sl) = halted s"
    by (auto simp: notifySale_def f emit_def request_fields Let_def
          split: option.splits sum.splits)
qed

lemma notifySales_events:
  assumes "\<And>h statusCode. purchase_reply e h tok \<noteq> Response statusCode None"
    and "\<not> halted s"
  shows "(\<exists>ys. events (notifySales e s tok xs) = events s @ map NewOrder ys \<and>
              map invoice_id ys = map invoice_id xs) \<and>
         \<not> halted (notifySales e s tok xs)"
  using assms(2)
proof (induction xs arbitrary: s)
  case Nil
  then show ?case by simp
next
  case (Cons x xs)
  let ?s1 = "notifySale e s tok x"
  obtain x' where x': "events ?s1 = events s @ [NewOrder x']" "invoice_id x' = invoice_id x"
    using notifySale_events(1) [OF assms(1)] by blast
  have h1: "\<not> halted ?s1"
    using notifySale_events(2) [OF assms(1)] Cons.prems by simp
  from Cons.IH [OF h1] obtain ys where
    ys: "events (notifySales e ?s1 tok xs) = events ?s1 @ map NewOrder ys"
      "map invoice_id ys = map invoice_id xs"
    and h2: "\<not> halted (notifySales e ?s1 tok xs)"
    by blast
  have "events (notifySales e s tok (x # xs)) = events s @ map NewOrder (x' # ys) \<and>
        map invoice_id (x' # ys) = map invoice_id (x # xs)"
    using x' ys h1 by simp
  then have a: "\<exists>ys. events (notifySales e s tok (x # xs)) = events s @ map NewOrder ys \<and>
        map invoice_id ys = map invoice_id (x # xs)" by blast
  have b: "\<not> halted (notifySales e s tok (x # xs))" using h1 h2 by simp
  show ?case using a b by (intro conjI)
qed

text \<open>Whatever the purchase fetches do, the handler is called for sales of the list only.\<close>

lemma notifySales_events_sub:
  "\<exists>ys. events (notifySales e s tok xs) = events s @ map NewOrder ys \<and>
        set (map invoice_id ys) \<subseteq> set (map invoice_id xs)"
proof (induction xs arbitrary: s)
  case Nil
  have "events (notifySales e s tok []) = events s @ map NewOrder [] \<and>
        set (map invoice_id ([] :: sale list)) \<subseteq> set (map invoice_id [])"
    by simp
  then show ?case by blast
next
  case (Cons x xs)
  let ?s1 = "notifySale e s tok x"
  obtain zs where zs: "events ?s1 = events s @ map NewOrder zs"
      "set (map invoice_id zs) \<subseteq> {invoice_id x}"
  proof -
    from notifySale_events_cases [of e s tok x]
    consider "events ?s1 = events s"
      | sl' where "events ?s1 = events s @ [NewOrder sl']" "invoice_id sl' = invoice_id x"
      by blast
    then show thesis
    proof cases
      case 1
      then have "events ?s1 = events s @ map NewOrder []"
          "set (map invoice_id ([] :: sale list)) \<subseteq> {invoice_id x}" by simp_all
      then show thesis by (rule that)
    next
      case 2
      then have "events ?s1 = events s @ map NewOrder [sl']"
          "set (map invoice_id [sl']) \<subseteq> {invoice_id x}" by simp_all
      then show thesis by (rule that)
    qed
  qed
  obtain ys where ys: "events (notifySales e ?s1 tok xs) = events ?s1 @ map NewOrder ys"
      "set (map invoice_id ys) \<subseteq> set (map invoice_id xs)"
    using Cons.IH by blast
  show ?case
  proof (cases "halted ?s1")
    case True
    have "events (notifySales e s tok (x # xs)) = events s @ map NewOrder zs \<and>
          set (map invoice_id zs) \<subseteq> set (map invoice_id (x # xs))"
      using zs True by auto
    then show ?thesis by blast
  next
    case False
    have "events (notifySales e s tok (x # xs)) = events s @ map NewOrder (zs @ ys) \<and>
          set (map invoice_id (zs @ ys)) \<subseteq> set (map invoice_id (x # xs))"
      using zs ys False by auto
    then show ?thesis by blast
  qed
qed

lemma notifySales_frame:
  "lastSaleInvoiceId (notifySales e s tok xs) = lastSaleInvoiceId s \<and>
   isInitialized (notifySales e s tok xs) = isInitialized s \<and>
   isRunning (notifySales e s tok xs) = isRunning s \<and>
   lastChatCount (notifySales e s tok xs) = lastChatCount s \<and>
   lastMessageIds (notifySales e s tok xs) = lastMessageIds s \<and>
   productCache (notifySales e s tok xs) = productCache s"
  by (induction xs arbitrary: s) (simp_all add: notifySale_frame Let_def)

lemma Math_max_gt:
  "Math_max xs = Some h \<Longrightarrow> h > w \<longleftrightarrow> (\<exists>y \<in> set xs. y > w)"
proof -
  assume a: "Math_max xs = Some h"
  then have ne: "xs \<noteq> []" by (cases xs) simp_all
  with a have "h = Max (set xs)" by (simp add: Math_max_Max)
  then show ?thesis using ne by (simp add: Max_gr_iff)
qed

lemma newSales_of_set:
  "set (newSales_of w xs) = {sl \<in> set xs. invoice_id sl > w}"
  by (auto simp: newSales_of_def)



text \<open>No watermark moves and no handler is called while \<^verbatim>\<open>isInitialized\<close> is false.\<close>

lemma checkNewOrders_uninitialized:
  assumes "lastSaleInvoiceId s = Some w" and "\<not> isInitialized s"
  shows "checkNewOrders e s tok = request s (FetchLastSales 20)"
proof -
  obtain r where f: "fetchLastSales e s tok 20 = (r, request s (FetchLastSales 20))"
    using fetchLastSales_eq by blast
  show ?thesis using assms
    by (simp add: checkNewOrders_def f Let_def request_fields split: sum.splits option.splits)
qed

lemma checkNewOrders_nothing_new:
  assumes "lastSaleInvoiceId s = Some w"
    and "fst (fetchLastSales e s tok 20) = Inr body"
    and "sales body = Some xs"
    and "newSales_of w xs = []"
  shows "checkNewOrders e s tok = request s (FetchLastSales 20)"
proof -
  note f = fetchLastSales_eq [OF assms(2)]
  have no: "\<not> (\<exists>y \<in> set (map invoice_id xs). y > w)"
    using newSales_of_set [of w xs] assms(4) by auto
  have "\<And>h. Math_max (map invoice_id xs) = Some h \<Longrightarrow> \<not> h > w"
    using Math_max_gt [of "map invoice_id xs"] no by blast
  then show ?thesis using assms(1,3)
    by (simp add: checkNewOrders_def f Let_def request_fields split: option.splits)
qed

text \<open>
  An initialized monitor with a watermark and new sales, on a remote side whose purchase
  replies carry a body: one handler call for each new sale, in ascending order of the
  invoice ids, and the watermark becomes their maximum.
\<close>

lemma checkNewOrders_new:
  assumes "isInitialized s"
    and "\<not> halted s"
    and "lastSaleInvoiceId s = Some w"
    and "fst (fetchLastSales e s tok 20) = Inr body"
    and "retval body = 0"
    and "sales body = Some xs"
    and "newSales_of w xs \<noteq> []"
    and "\<And>h statusCode. purchase_reply e h tok \<noteq> Response statusCode None"
  shows "\<exists>ys. events (checkNewOrders e s tok) = events s @ map NewOrder ys \<and>
              map invoice_id ys = map invoice_id (newSales_of w xs)"
    and "lastSaleInvoiceId (checkNewOrders e s tok) = Math_max (map invoice_id (newSales_of w xs))"
    and "\<not> halted (checkNewOrders e s tok)"
proof -
  let ?s1 = "request s (FetchLastSales 20)"
  let ?new = "newSales_of w xs"
  note f = fetchLastSales_eq [OF assms(4)]
  have "set (newSales_of w xs) \<noteq> {}" using assms(7) by simp
  then obtain sl where "sl \<in> set xs" "invoice_id sl > w"
    by (auto simp: newSales_of_set)
  then have ex: "\<exists>y \<in> set (map invoice_id xs). y > w" by auto
  then have "xs \<noteq> []" by auto
  then obtain h where h: "Math_max (map invoice_id xs) = Some h"
    by (cases xs) simp_all
  have gt: "h > w" using Math_max_gt [OF h] ex by blast
  obtain m where m: "Math_max (map invoice_id ?new) = Some m"
    using assms(7) by (cases ?new) simp_all
  have h1: "\<not> halted ?s1" using assms(2) by (simp add: request_fields)
  from notifySales_events [OF assms(8) h1, of ?new]
  obtain ys where ys: "events (notifySales e ?s1 tok ?new) = events ?s1 @ map NewOrder ys"
      "map invoice_id ys = map invoice_id ?new"
    and h2: "\<not> halted (notifySales e ?s1 tok ?new)"
    by blast
  have chk: "checkNewOrders e s tok = (notifySales e ?s1 tok ?new)\<lparr>lastSaleInvoiceId := Some m\<rparr>"
    using assms(1,3,5,6) gt h2
    by (simp add: checkNewOrders_def f h m Let_def request_fields)
  have "events (checkNewOrders e s tok) = events s @ map NewOrder ys"
    by (simp add: chk ys(1) request_fields)
  with ys(2) show "\<exists>ys. events (checkNewOrders e s tok) = events s @ map NewOrder ys \<and>
              map invoice_id ys = map invoice_id ?new" by blast
  show "lastSaleInvoiceId (checkNewOrders e s tok) = Math_max (map invoice_id ?new)"
    by (simp add: chk m)
  show "\<not> halted (checkNewOrders e s tok)"
    using h2 by (simp add: chk)
qed

text \<open>The sale with the highest id is new whenever the highest id is above the watermark.\<close>

lemma newSales_max:
  assumes "Math_max (map invoice_id xs) = Some h" and "h > w"
  shows "newSales_of w xs \<noteq> []"
proof -
  from Math_max_gt [OF assms(1), of w] assms(2)
  obtain sl where "sl \<in> set xs" "invoice_id sl > w" by auto
  then have "sl \<in> set (newSales_of w xs)" by (simp add: newSales_of_set)
  then show ?thesis by auto
qed

text \<open>
  Claim C5. With no invoice watermark yet (null), a sales fetch that returns a list with
  at least one sale sets the watermark to the highest invoice id of the list, and no
  handler is called.
\<close>

theorem cold_start_sets_watermark_silently:
  assumes "lastSaleInvoiceId s = None"
    and "fst (fetchLastSales e s tok 20) = Inr body"
    and "retval body = 0"
    and "sales body = Some xs"
    and "xs \<noteq> []"
  shows "lastSaleInvoiceId (checkNewOrders e s tok) = Some (Max (set (map invoice_id xs))) \<and>
         events (checkNewOrders e s tok) = events s"
proof -
  obtain s1 where f: "fetchLastSales e s tok 20 = (Inr body, s1)"
    using assms(2) by (cases "fetchLastSales e s tok 20") simp
  have s1: "s1 = request s (FetchLastSales 20)"
    using f snd_fetchLastSales [of e s tok 20] by simp
  have m: "Math_max (map invoice_id xs) = Some (Max (set (map invoice_id xs)))"
    using assms(5) by (simp add: Math_max_Max)
  show ?thesis
    using assms(1,3,4) by (simp add: checkNewOrders_def f m s1 request_def)
qed

text \<open>The first fetch ever returns the invoices 5, 8 and 12: no event, watermark 12.\<close>

theorem cold_start_sets_watermark_silently_witness:
  "lastSaleInvoiceId (running None 0 Map.empty False) = None \<and>
   fst (fetchLastSales (shop [5, 8, 12] [] (\<lambda>c. [])) (running None 0 Map.empty False) ''token'' 20)
     = Inr \<lparr>retval = 0, retdesc = [], sales = Some (map sale_of [5, 8, 12])\<rparr> \<and>
   lastSaleInvoiceId (checkNewOrders (shop [5, 8, 12] [] (\<lambda>c. [])) (running None 0 Map.empty False) ''token'')
     = Some 12 \<and>
   events (checkNewOrders (shop [5, 8, 12] [] (\<lambda>c. [])) (running None 0 Map.empty False) ''token'') = []"
proof -
  let ?e = "shop [5, 8, 12] [] (\<lambda>c. [])"
  let ?s = "running None 0 Map.empty False"
  let ?body = "\<lparr>retval = 0, retdesc = [], sales = Some (map sale_of [5, 8, 12])\<rparr>"
  have h1: "lastSaleInvoiceId ?s = None" by (simp add: running_def)
  have h2: "fst (fetchLastSales ?e ?s ''token'' 20) = Inr ?body"
    by (simp add: fetchLastSales_def shop_def request_def bad_status_def)
  have h3: "retval ?body = 0" by simp
  have h4: "sales ?body = Some (map sale_of [5, 8, 12])" by simp
  have h5: "map sale_of [5, 8, 12] \<noteq> []" by simp
  have ev: "events ?s = []" by (simp add: running_def)
  have mx: "Max (set (map invoice_id (map sale_of [5, 8, 12]))) = 12" by (simp add: sale_of_def)
  show ?thesis
    using cold_start_sets_watermark_silently [OF h1 h2 h3 h4 h5] h1 h2 ev mx by simp
qed



section \<open>The loop over the chats: what one chat does\<close>

text \<open>
  On a remote side whose product and purchase replies carry a body, the two lookups of a
  chat settle, and touch nothing but the log of requests and their caches.
\<close>

lemma fetchProduct_settled:
  assumes "\<And>h statusCode. product_reply e h tok \<noteq> Response statusCode None"
  obtains rp s2 where "fetchProduct e s tok p = (Settled rp, s2)"
    and "events s2 = events s" and "lastMessageIds s2 = lastMessageIds s"
    and "lastSaleInvoiceId s2 = lastSaleInvoiceId s" and "lastChatCount s2 = lastChatCount s"
    and "isInitialized s2 = isInitialized s" and "isRunning s2 = isRunning s"
    and "invoiceCache s2 = invoiceCache s" and "halted s2 = halted s"
    and "set (calls s) \<subseteq> set (calls s2)"
proof -
  obtain rp where rp: "fst (fetchProduct e s tok p) = Settled rp"
    using fetchProduct_settles(1) [OF assms] by blast
  show thesis
  proof (rule that [of rp "snd (fetchProduct e s tok p)"])
    show "fetchProduct e s tok p = (Settled rp, snd (fetchProduct e s tok p))"
      using rp by (simp add: prod_eq_iff)
  qed (simp_all add: fetchProduct_frame fetchProduct_settles(2) [OF assms] fetchProduct_calls_mono)
qed

lemma getChatBuyerEmail_settled:
  assumes "\<And>h statusCode. purchase_reply e h tok \<noteq> Response statusCode None"
  obtains em s2 where "getChatBuyerEmail e s tok c = (Settled em, s2)"
    and "events s2 = events s" and "lastMessageIds s2 = lastMessageIds s"
    and "lastSaleInvoiceId s2 = lastSaleInvoiceId s" and "lastChatCount s2 = lastChatCount s"
    and "isInitialized s2 = isInitialized s" and "isRunning s2 = isRunning s"
    and "productCache s2 = productCache s" and "halted s2 = halted s"
    and "set (calls s) \<subseteq> set (calls s2)"
proof -
  obtain em where em: "fst (getChatBuyerEmail e s tok c) = Settled em"
    using getChatBuyerEmail_settles(1) [OF assms] by blast
  show thesis
  proof (rule that [of em "snd (getChatBuyerEmail e s tok c)"])
    show "getChatBuyerEmail e s tok c = (Settled em, snd (getChatBuyerEmail e s tok c))"
      using em by (simp add: prod_eq_iff)
  qed (simp_all add: getChatBuyerEmail_frame getChatBuyerEmail_settles(2) [OF assms]
         getChatBuyerEmail_calls_mono)
qed





lemma checkChat_failed:
  assumes "fst (fetchMessages e s tok (id_i ch) 200) = Inl err"
  shows "checkChat e s tok ch = request s (FetchMessages (id_i ch) 200)"
  by (simp add: checkChat_def fetchMessages_eq [OF assms])


lemma checkChat_quiet:
  assumes "fst (fetchMessages e s tok (id_i ch) 200) = Inr fetched"
    and "lastMessageIds s (id_i ch) = Some w"
    and "filter (\<lambda>msg. id_m msg > w) (sort_key id_m fetched) = []"
  shows "checkChat e s tok ch = request s (FetchMessages (id_i ch) 200)"
  using assms(2,3)
  by (simp add: checkChat_def fetchMessages_eq [OF assms(1)] Let_def request_fields)





section \<open>fetchProduct\<close>


lemma string_of_int_101: "string_of_int 101 = ''101''"
  by (simp add: string_of_int_def digit_char_def)

lemma string_of_int_neg: "string_of_int (- 42) = ''-42''"
  by (simp add: string_of_int_def digit_char_def)












section \<open>checkNewOrders: a purchase that cannot be fetched\<close>

lemma notifySale_failed:
  assumes "invoiceCache s (invoice_id sl) = None"
    and "fst (fetchInvoiceDetails e s tok (invoice_id sl)) = Settled (Inl err)"
  shows "notifySale e s tok sl =
     emit ((request s (FetchInvoiceDetails (invoice_id sl)))\<lparr>invoiceCache :=
             (invoiceCache s)(invoice_id sl \<mapsto>
               \<lparr>invoice_id_d = invoice_id sl, buyer_email_d = None,
                order_amount_d = order_amount sl, currency_type_d = currency_type sl,
                formatted_amount_d = formatted_amount sl,
                product_d = Some (product_s sl), date_d = Some (date sl)\<rparr>)\<rparr>)
          (NewOrder (sl\<lparr>buyer_email := None\<rparr>))"
  using assms(1)
  by (simp add: notifySale_def fetchInvoiceDetails_eq [OF assms(2)] request_fields Let_def)

lemma notifySale_cached:
  assumes "invoiceCache s (invoice_id sl) = Some d"
  shows "notifySale e s tok sl =
     emit s (NewOrder (sl\<lparr>buyer_email := buyer_email_d d, order_amount := order_amount_d d,
                          currency_type := currency_type_d d,
                          formatted_amount := formatted_amount_d d\<rparr>))"
  using assms by (simp add: notifySale_def)

text \<open>
  Claim C7, as the code has it. When the purchase of a new sale cannot be fetched,
  \<^verbatim>\<open>onNewOrder\<close> is still called, with the sale as fetched and a null buyer email. An
  entry with a null buyer email is written to the invoice cache all the same.
  \<^verbatim>\<open>getChatBuyerEmail\<close> passes over such an entry, so the next lookup of the buyer
  email of that invoice by the chat path requests the purchase again;
  the loop of \<^verbatim>\<open>checkNewOrders\<close> takes the entry as it is and sends no request.
\<close>

theorem failed_enrichment_still_notifies:
  assumes "invoiceCache s (invoice_id sl) = None"
    and "fst (fetchInvoiceDetails e s tok (invoice_id sl)) = Settled (Inl err)"
  shows "events (notifySale e s tok sl) = events s @ [NewOrder (sl\<lparr>buyer_email := None\<rparr>)] \<and>
     invoiceCache (notifySale e s tok sl) (invoice_id sl) =
       Some \<lparr>invoice_id_d = invoice_id sl, buyer_email_d = None,
             order_amount_d = order_amount sl, currency_type_d = currency_type sl,
             formatted_amount_d = formatted_amount sl,
             product_d = Some (product_s sl), date_d = Some (date sl)\<rparr> \<and>
     calls (snd (getChatBuyerEmail e (notifySale e s tok sl) tok (invoice_id sl))) =
       calls s @ [FetchInvoiceDetails (invoice_id sl), FetchInvoiceDetails (invoice_id sl)] \<and>
     calls (notifySale e (notifySale e s tok sl) tok sl) =
       calls s @ [FetchInvoiceDetails (invoice_id sl)]"
proof -
  let ?d = "\<lparr>invoice_id_d = invoice_id sl, buyer_email_d = None,
             order_amount_d = order_amount sl, currency_type_d = currency_type sl,
             formatted_amount_d = formatted_amount sl,
             product_d = Some (product_s sl), date_d = Some (date sl)\<rparr>"
  note ns = notifySale_failed [OF assms]
  have ev: "events (notifySale e s tok sl) = events s @ [NewOrder (sl\<lparr>buyer_email := None\<rparr>)]"
    by (simp add: ns emit_def request_fields)
  have ic: "invoiceCache (notifySale e s tok sl) (invoice_id sl) = Some ?d"
    by (simp add: ns emit_def)
  have cl: "calls (notifySale e s tok sl) = calls s @ [FetchInvoiceDetails (invoice_id sl)]"
    by (simp add: ns emit_def request_fields)
  have "cached_email (invoiceCache (notifySale e s tok sl) (invoice_id sl)) = None"
    by (simp add: ic cached_email_def or_null_def)
  from getChatBuyerEmail_calls [OF this, of e tok]
  have gc: "calls (snd (getChatBuyerEmail e (notifySale e s tok sl) tok (invoice_id sl))) =
       calls s @ [FetchInvoiceDetails (invoice_id sl), FetchInvoiceDetails (invoice_id sl)]"
    by (simp add: cl)
  have again: "calls (notifySale e (notifySale e s tok sl) tok sl) =
       calls s @ [FetchInvoiceDetails (invoice_id sl)]"
    by (simp add: notifySale_cached [OF ic] emit_def cl)
  show ?thesis using ev ic gc again by (intro conjI)
qed

text \<open>
  Claim C7 as it was stated has the failure not cached. After the purchase of invoice 101
  timed out the cache has an entry for 101, and a second pass of the loop body over the
  same sale sends no second request.
\<close>

theorem failed_enrichment_is_cached:
  "invoiceCache (notifySale (purchases_down (shop [101] [] (\<lambda>c. []))) (running (Some 100) 0 Map.empty True)
       ''token'' (sale_of 101)) 101
     = Some \<lparr>invoice_id_d = 101, buyer_email_d = None, order_amount_d = None,
             currency_type_d = None, formatted_amount_d = None,
             product_d = Some ''Game key'', date_d = Some ''2024-05-01''\<rparr> \<and>
   invoiceCache (notifySale (purchases_down (shop [101] [] (\<lambda>c. []))) (running (Some 100) 0 Map.empty True)
       ''token'' (sale_of 101)) 101 \<noteq> None \<and>
   calls (notifySale (purchases_down (shop [101] [] (\<lambda>c. [])))
       (notifySale (purchases_down (shop [101] [] (\<lambda>c. []))) (running (Some 100) 0 Map.empty True)
          ''token'' (sale_of 101)) ''token'' (sale_of 101))
     = [FetchInvoiceDetails 101]"
  by (simp add: notifySale_def fetchInvoiceDetails_def purchases_down_def shop_def running_def
        request_def emit_def sale_of_def Let_def)

text \<open>The sale of invoice 101 on a remote side whose purchase endpoint times out.\<close>

theorem failed_enrichment_still_notifies_witness:
  "invoiceCache (running (Some 100) 0 Map.empty True) (invoice_id (sale_of 101)) = None \<and>
   fst (fetchInvoiceDetails (purchases_down (shop [101] [] (\<lambda>c. []))) (running (Some 100) 0 Map.empty True)
         ''token'' (invoice_id (sale_of 101))) = Settled (Inl (RequestError ''ETIMEDOUT'')) \<and>
   events (notifySale (purchases_down (shop [101] [] (\<lambda>c. []))) (running (Some 100) 0 Map.empty True)
       ''token'' (sale_of 101)) = [NewOrder (sale_of 101)] \<and>
   buyer_email (sale_of 101) = None \<and> order_amount (sale_of 101) = None \<and>
   calls (snd (getChatBuyerEmail (purchases_down (shop [101] [] (\<lambda>c. [])))
       (notifySale (purchases_down (shop [101] [] (\<lambda>c. []))) (running (Some 100) 0 Map.empty True)
          ''token'' (sale_of 101)) ''token'' 101))
     = [FetchInvoiceDetails 101, FetchInvoiceDetails 101]"
proof -
  let ?e = "purchases_down (shop [101] [] (\<lambda>c. []))"
  let ?s = "running (Some 100) 0 Map.empty True"
  have id: "invoice_id (sale_of 101) = 101" by (simp add: sale_of_def)
  have h1: "invoiceCache ?s (invoice_id (sale_of 101)) = None" by (simp add: running_def)
  have h2: "fst (fetchInvoiceDetails ?e ?s ''token'' (invoice_id (sale_of 101))) = Settled (Inl (RequestError ''ETIMEDOUT''))"
    by (simp add: fetchInvoiceDetails_def purchases_down_def shop_def)
  have st: "events ?s = []" "calls ?s = []" by (simp_all add: running_def)
  have same: "(sale_of 101)\<lparr>buyer_email := None\<rparr> = sale_of 101" by (simp add: sale_of_def)
  have none: "buyer_email (sale_of 101) = None" "order_amount (sale_of 101) = None"
    by (simp_all add: sale_of_def)
  note t = failed_enrichment_still_notifies [OF h1 h2]
  have c1: "events (notifySale ?e ?s ''token'' (sale_of 101)) = [NewOrder (sale_of 101)]"
    using t by (simp only: st same append_Nil)
  have c2: "calls (snd (getChatBuyerEmail ?e (notifySale ?e ?s ''token'' (sale_of 101)) ''token'' 101))
     = [FetchInvoiceDetails 101, FetchInvoiceDetails 101]"
    using t by (simp only: st id append_Nil)
  show ?thesis using h1 h2 c1 none c2 by (intro conjI)
qed

section \<open>poll: the requests of a cycle\<close>







lemma newChat_id: "id_i (snd (newChat e s tok ch)) = id_i ch"
  by (simp add: newChat_def Let_def case_prod_beta split: awaited.splits)




text \<open>What no step of a poll touches.\<close>

lemma checkChat_frame:
  "isRunning (checkChat e s tok ch) = isRunning s"
  "isInitialized (checkChat e s tok ch) = isInitialized s"
  "lastSaleInvoiceId (checkChat e s tok ch) = lastSaleInvoiceId s"
  "lastChatCount (checkChat e s tok ch) = lastChatCount s"
proof -
  obtain r where f: "fetchMessages e s tok (id_i ch) 200 = (r, request s (FetchMessages (id_i ch) 200))"
    using fetchMessages_eq by blast
  show "isRunning (checkChat e s tok ch) = isRunning s"
    "isInitialized (checkChat e s tok ch) = isInitialized s"
    "lastSaleInvoiceId (checkChat e s tok ch) = lastSaleInvoiceId s"
    "lastChatCount (checkChat e s tok ch) = lastChatCount s"
    by (simp_all add: checkChat_def f Let_def case_prod_beta emit_def request_fields
          fetchProduct_frame getChatBuyerEmail_frame
          split: sum.splits option.splits awaited.splits)
qed

lemma checkChats_frame:
  "isRunning (checkChats e s tok cs) = isRunning s \<and>
   isInitialized (checkChats e s tok cs) = isInitialized s \<and>
   lastSaleInvoiceId (checkChats e s tok cs) = lastSaleInvoiceId s \<and>
   lastChatCount (checkChats e s tok cs) = lastChatCount s"
  by (induction cs arbitrary: s) (simp_all add: checkChat_frame Let_def)

lemma newChat_frame:
  "isRunning (fst (newChat e s tok ch)) = isRunning s"
  "isInitialized (fst (newChat e s tok ch)) = isInitialized s"
  "lastSaleInvoiceId (fst (newChat e s tok ch)) = lastSaleInvoiceId s"
  "lastChatCount (fst (newChat e s tok ch)) = lastChatCount s"
proof -
  let ?s2 = "snd (getChatBuyerEmail e (snd (fetchProduct e s tok (product_c ch))) tok (id_i ch))"
  obtain r where f: "fetchMessages e ?s2 tok (id_i ch) 200 = (r, request ?s2 (FetchMessages (id_i ch) 200))"
    using fetchMessages_eq by blast
  show "isRunning (fst (newChat e s tok ch)) = isRunning s"
    "isInitialized (fst (newChat e s tok ch)) = isInitialized s"
    "lastSaleInvoiceId (fst (newChat e s tok ch)) = lastSaleInvoiceId s"
    "lastChatCount (fst (newChat e s tok ch)) = lastChatCount s"
    by (simp_all add: newChat_def f Let_def case_prod_beta emit_def request_fields
          fetchProduct_frame getChatBuyerEmail_frame split: awaited.splits)
qed



lemma checkNewOrders_frame:
  "isRunning (checkNewOrders e s tok) = isRunning s"
  "isInitialized (checkNewOrders e s tok) = isInitialized s"
  "lastChatCount (checkNewOrders e s tok) = lastChatCount s"
  "lastMessageIds (checkNewOrders e s tok) = lastMessageIds s"
proof -
  obtain r where f: "fetchLastSales e s tok 20 = (r, request s (FetchLastSales 20))"
    using fetchLastSales_eq by blast
  show "isRunning (checkNewOrders e s tok) = isRunning s"
    "isInitialized (checkNewOrders e s tok) = isInitialized s"
    "lastChatCount (checkNewOrders e s tok) = lastChatCount s"
    "lastMessageIds (checkNewOrders e s tok) = lastMessageIds s"
    by (simp_all add: checkNewOrders_def f Let_def request_fields notifySales_frame
          split: sum.splits option.splits)
qed


text \<open>
  On a remote side whose product and purchase replies carry a body, no step of a poll
  is left waiting.
\<close>

lemma checkChat_halted:
  assumes "\<And>h statusCode. product_reply e h tok \<noteq> Response statusCode None"
    and "\<And>h statusCode. purchase_reply e h tok \<noteq> Response statusCode None"
  shows "halted (checkChat e s tok ch) = halted s"
proof -
  let ?s1 = "request s (FetchMessages (id_i ch) 200)"
  obtain r where f: "fetchMessages e s tok (id_i ch) 200 = (r, ?s1)"
    using fetchMessages_eq by blast
  obtain rp s2 where fp: "fetchProduct e ?s1 tok (product_c ch) = (Settled rp, s2)"
    and s2: "halted s2 = halted ?s1"
    by (rule fetchProduct_settled [OF assms(1), of ?s1 "product_c ch"])
  obtain em s3 where ge: "getChatBuyerEmail e s2 tok (id_i ch) = (Settled em, s3)"
    and s3: "halted s3 = halted s2"
    by (rule getChatBuyerEmail_settled [OF assms(2), of s2 "id_i ch"])
  show ?thesis
    by (simp add: checkChat_def f fp ge s2 s3 Let_def emit_def request_fields
          split: sum.splits option.splits)
qed

lemma checkChats_halted:
  assumes "\<And>h statusCode. product_reply e h tok \<noteq> Response statusCode None"
    and "\<And>h statusCode. purchase_reply e h tok \<noteq> Response statusCode None"
  shows "halted (checkChats e s tok cs) = halted s"
  by (induction cs arbitrary: s) (simp_all add: checkChat_halted [OF assms] Let_def)

lemma newChat_halted:
  assumes "\<And>h statusCode. product_reply e h tok \<noteq> Response statusCode None"
    and "\<And>h statusCode. purchase_reply e h tok \<noteq> Response statusCode None"
  shows "halted (fst (newChat e s tok ch)) = halted s"
proof -
  obtain rp s1 where fp: "fetchProduct e s tok (product_c ch) = (Settled rp, s1)"
    and s1: "halted s1 = halted s"
    by (rule fetchProduct_settled [OF assms(1), of s "product_c ch"])
  obtain em s2 where ge: "getChatBuyerEmail e s1 tok (id_i ch) = (Settled em, s2)"
    and s2: "halted s2 = halted s1"
    by (rule getChatBuyerEmail_settled [OF assms(2), of s1 "id_i ch"])
  obtain r where f: "fetchMessages e s2 tok (id_i ch) 200 = (r, request s2 (FetchMessages (id_i ch) 200))"
    using fetchMessages_eq by blast
  show ?thesis
    by (simp add: newChat_def f fp ge s1 s2 Let_def emit_def request_fields)
qed



lemma notifySales_halted:
  assumes "\<And>h statusCode. purchase_reply e h tok \<noteq> Response statusCode None"
  shows "halted (notifySales e s tok xs) = halted s"
  by (induction xs arbitrary: s) (simp_all add: notifySale_events(2) [OF assms] Let_def)

lemma checkNewOrders_halted:
  assumes "\<And>h statusCode. purchase_reply e h tok \<noteq> Response statusCode None"
  shows "halted (checkNewOrders e s tok) = halted s"
proof -
  obtain r where f: "fetchLastSales e s tok 20 = (r, request s (FetchLastSales 20))"
    using fetchLastSales_eq by blast
  show ?thesis
    by (simp add: checkNewOrders_def f Let_def request_fields notifySales_halted [OF assms]
          split: sum.splits option.splits)
qed



section \<open>When a poll is left waiting\<close>


lemma bodyless_bodies:
  assumes "\<And>h statusCode. product_reply e h tok \<noteq> Response statusCode None"
    and "\<And>h statusCode. purchase_reply e h tok \<noteq> Response statusCode None"
  shows "\<not> bodyless e tok h"
  using assms by (auto simp: bodyless_def split: list.splits call.splits http.splits option.splits)



















section \<open>What a poll may report\<close>

text \<open>
  A chat without a watermark: no handler is called, and no watermark but its own is
  touched.
\<close>

lemma checkChat_cold:
  assumes "lastMessageIds s (id_i ch) = None"
  shows "events (checkChat e s tok ch) = events s"
    and "c \<noteq> id_i ch \<Longrightarrow> lastMessageIds (checkChat e s tok ch) c = lastMessageIds s c"
proof -
  obtain r where f: "fetchMessages e s tok (id_i ch) 200 = (r, request s (FetchMessages (id_i ch) 200))"
    using fetchMessages_eq by blast
  show "events (checkChat e s tok ch) = events s"
    using assms
    by (simp add: checkChat_def f Let_def request_fields split: sum.splits)
  show "c \<noteq> id_i ch \<Longrightarrow> lastMessageIds (checkChat e s tok ch) c = lastMessageIds s c"
    using assms
    by (simp add: checkChat_def f Let_def request_fields split: sum.splits)
qed

lemma checkChats_cold:
  assumes "distinct (map id_i cs)"
    and "\<And>ch. ch \<in> set cs \<Longrightarrow> lastMessageIds s (id_i ch) = None"
  shows "events (checkChats e s tok cs) = events s \<and>
         (\<forall>c. c \<notin> id_i ` set cs \<longrightarrow> lastMessageIds (checkChats e s tok cs) c = lastMessageIds s c)"
  using assms
proof (induction cs arbitrary: s)
  case Nil
  show ?case by simp
next
  case (Cons a cs)
  let ?s1 = "checkChat e s tok a"
  have n: "lastMessageIds s (id_i a) = None" using Cons.prems(2) by simp
  have d: "distinct (map id_i cs)" and na: "id_i a \<notin> id_i ` set cs" using Cons.prems(1) by auto
  have rest: "\<And>ch. ch \<in> set cs \<Longrightarrow> lastMessageIds ?s1 (id_i ch) = None"
  proof -
    fix ch assume m: "ch \<in> set cs"
    then have "id_i ch \<noteq> id_i a" using na by (metis imageI)
    then show "lastMessageIds ?s1 (id_i ch) = None"
      using checkChat_cold(2) [OF n, where c = "id_i ch"] Cons.prems(2) m by simp
  qed
  from Cons.IH [OF d rest]
  have ih: "events (checkChats e ?s1 tok cs) = events ?s1"
    "\<And>c. c \<notin> id_i ` set cs \<Longrightarrow> lastMessageIds (checkChats e ?s1 tok cs) c = lastMessageIds ?s1 c"
    by auto
  show ?case
    using ih checkChat_cold [OF n] by (auto simp: Let_def)
qed

text \<open>
  A chat flagged as new: \<^verbatim>\<open>onNewChat\<close>, then \<^verbatim>\<open>onNewMessage\<close> with all the fetched
  messages when there are any, and the watermark of the chat set to the highest fetched
  id, or to 0.
\<close>

lemma newChat_with_messages:
  assumes "fst (fetchMessages e
             (snd (getChatBuyerEmail e (snd (fetchProduct e s tok (product_c ch))) tok (id_i ch)))
             tok (id_i ch) 200) = Inr ms"
    and "ms \<noteq> []"
    and qb: "\<And>h statusCode. product_reply e h tok \<noteq> Response statusCode None"
    and pb: "\<And>h statusCode. purchase_reply e h tok \<noteq> Response statusCode None"
  shows "\<exists>pn. events (fst (newChat e s tok ch)) =
            events s @ [NewChat (snd (newChat e s tok ch)) pn,
                        NewMessages (snd (newChat e s tok ch)) (length ms) (sort_key id_m ms) pn]"
    and "lastMessageIds (fst (newChat e s tok ch)) =
           (lastMessageIds s)(id_i ch \<mapsto> id_m (last (sort_key id_m ms)))"
proof -
  obtain rp s1 where fp: "fetchProduct e s tok (product_c ch) = (Settled rp, s1)"
    and s1: "events s1 = events s" "lastMessageIds s1 = lastMessageIds s"
    by (rule fetchProduct_settled [OF qb, of s "product_c ch"])
  obtain em s2 where ge: "getChatBuyerEmail e s1 tok (id_i ch) = (Settled em, s2)"
    and s2: "events s2 = events s1" "lastMessageIds s2 = lastMessageIds s1"
    by (rule getChatBuyerEmail_settled [OF pb, of s1 "id_i ch"])
  have "fst (fetchMessages e s2 tok (id_i ch) 200) = Inr ms"
    using assms(1) by (simp add: fp ge)
  note f = fetchMessages_eq [OF this]
  have ne: "sort_key id_m ms \<noteq> []" using assms(2) by (metis length_0_conv length_sort)
  show "\<exists>pn. events (fst (newChat e s tok ch)) =
            events s @ [NewChat (snd (newChat e s tok ch)) pn,
                        NewMessages (snd (newChat e s tok ch)) (length ms) (sort_key id_m ms) pn]"
    using ne assms(2)
    by (simp add: newChat_def f fp ge s1 s2 Let_def emit_def request_fields)
  show "lastMessageIds (fst (newChat e s tok ch)) =
           (lastMessageIds s)(id_i ch \<mapsto> id_m (last (sort_key id_m ms)))"
    using ne assms(2)
    by (simp add: newChat_def f fp ge s1 s2 Let_def emit_def request_fields)
qed

lemma newChat_without_messages:
  assumes "fst (fetchMessages e
             (snd (getChatBuyerEmail e (snd (fetchProduct e s tok (product_c ch))) tok (id_i ch)))
             tok (id_i ch) 200) = r"
    and "r = Inr [] \<or> (\<exists>err. r = Inl err)"
    and qb: "\<And>h statusCode. product_reply e h tok \<noteq> Response statusCode None"
    and pb: "\<And>h statusCode. purchase_reply e h tok \<noteq> Response statusCode None"
  shows "\<exists>pn. events (fst (newChat e s tok ch)) = events s @ [NewChat (snd (newChat e s tok ch)) pn]"
    and "lastMessageIds (fst (newChat e s tok ch)) = (lastMessageIds s)(id_i ch \<mapsto> 0)"
proof -
  obtain rp s1 where fp: "fetchProduct e s tok (product_c ch) = (Settled rp, s1)"
    and s1: "events s1 = events s" "lastMessageIds s1 = lastMessageIds s"
    by (rule fetchProduct_settled [OF qb, of s "product_c ch"])
  obtain em s2 where ge: "getChatBuyerEmail e s1 tok (id_i ch) = (Settled em, s2)"
    and s2: "events s2 = events s1" "lastMessageIds s2 = lastMessageIds s1"
    by (rule getChatBuyerEmail_settled [OF pb, of s1 "id_i ch"])
  have "fst (fetchMessages e s2 tok (id_i ch) 200) = r"
    using assms(1) by (simp add: fp ge)
  note f = fetchMessages_eq [OF this]
  show "\<exists>pn. events (fst (newChat e s tok ch)) = events s @ [NewChat (snd (newChat e s tok ch)) pn]"
    using assms(2)
    by (auto simp: newChat_def f fp ge s1 s2 Let_def emit_def request_fields)
  show "lastMessageIds (fst (newChat e s tok ch)) = (lastMessageIds s)(id_i ch \<mapsto> 0)"
    using assms(2)
    by (auto simp: newChat_def f fp ge s1 s2 Let_def emit_def request_fields)
qed

lemma fetchMessages_reply:
  assumes "messages_reply e (calls s @ [FetchMessages c n]) tok = Response 200 (Some ms)"
  shows "fst (fetchMessages e s tok c n) = Inr ms"
  using assms by (simp add: fetchMessages_def request_fields bad_status_def Let_def)

lemma fetchChats_reply:
  assumes "chats_reply e (calls s @ [FetchChats]) tok = Response 200 body"
  shows "fst (fetchChats e s tok) = Inr body"
  using assms by (simp add: fetchChats_def request_fields bad_status_def Let_def)

lemma fetchLastSales_reply:
  assumes "sales_reply e (calls s @ [FetchLastSales n]) tok = Response 200 body"
  shows "fst (fetchLastSales e s tok n) = Inr body"
  using assms by (simp add: fetchLastSales_def request_fields bad_status_def Let_def)

section \<open>A whole poll\<close>

lemma poll_fields:
  assumes "isRunning s"
  shows "events (fst (poll e s)) = events (pollTry e s)"
    and "lastSaleInvoiceId (fst (poll e s)) = lastSaleInvoiceId (pollTry e s)"
    and "lastChatCount (fst (poll e s)) = lastChatCount (pollTry e s)"
    and "lastMessageIds (fst (poll e s)) = lastMessageIds (pollTry e s)"
    and "calls (fst (poll e s)) = calls (pollTry e s)"
  using assms by (simp_all add: poll_def Let_def)

text \<open>
  Claim C3, as the code has it. A running monitor has invoice watermark 100, chat count 3
  and no message watermark. The poll fetches sales with the invoice ids 100 and 101, a
  list of four chats with distinct order numbers whose first is the chat of order 101, and
  the messages 1 and 2 for chat 101. Then \<^verbatim>\<open>onNewChat\<close> is called once, for chat 101,
  and \<^verbatim>\<open>onNewMessage\<close> once, for chat 101 with the messages 1 and 2; the chat count
  becomes 4 and the message watermark of chat 101 becomes 2; here the purchase and
  product replies of the remote side carry a body. The order of invoice 101 is
  reported, before the chat, and the invoice watermark becomes 101, only when
  \<^verbatim>\<open>isInitialized\<close> is set, that is from the second poll on: in the first poll after
  the start no \<^verbatim>\<open>onNewOrder\<close> is called and the invoice watermark stays 100.
\<close>

theorem first_poll_reports_chat_but_not_order:
  assumes run: "isRunning s"
    and nh: "\<not> halted s"
    and wm: "lastSaleInvoiceId s = Some 100"
    and cc: "lastChatCount s = 3"
    and mk: "lastMessageIds s = Map.empty"
    and tk: "token_reply e (calls s @ [GetToken]) = Inr tok"
    and sl: "\<And>h. sales_reply e (h @ [FetchLastSales 20]) tok = Response 200 sbody"
    and sb: "retval sbody = 0" "sales sbody = Some xs" "map invoice_id xs = [100, 101]"
    and cl: "\<And>h. chats_reply e (h @ [FetchChats]) tok = Response 200 cbody"
    and cb: "items cbody = Some chats" "map id_i chats = [101, i2, i3, i4]"
            "distinct [101, i2, i3, i4]"
    and ms: "\<And>h. \<exists>fetched. messages_reply e (h @ [FetchMessages 101 200]) tok
                         = Response 200 (Some fetched) \<and> map id_m fetched = [1, 2]"
    and qb: "\<And>h statusCode. product_reply e h tok \<noteq> Response statusCode None"
    and pb: "\<And>h statusCode. purchase_reply e h tok \<noteq> Response statusCode None"
  shows "(\<exists>sl' ch' pn msgs. events (fst (poll e s)) =
             events s @ (if isInitialized s then [NewOrder sl'] else [])
               @ [NewChat ch' pn, NewMessages ch' 2 msgs pn] \<and>
             invoice_id sl' = 101 \<and> id_i ch' = 101 \<and> map id_m msgs = [1, 2]) \<and>
         lastSaleInvoiceId (fst (poll e s)) = Some (if isInitialized s then 101 else 100) \<and>
         lastChatCount (fst (poll e s)) = 4 \<and>
         lastMessageIds (fst (poll e s)) 101 = Some 2"
proof -
  define s1 where "s1 = request s GetToken"
  define s2 where "s2 = checkNewOrders e s1 tok"
  define s3 where "s3 = request s2 FetchChats"
  obtain c1 c2 c3 c4 where chats: "chats = [c1, c2, c3, c4]"
    and ids: "id_i c1 = 101" "id_i c2 = i2" "id_i c3 = i3" "id_i c4 = i4"
    using cb(2) by auto
  obtain x y where xs: "xs = [x, y]" and xids: "invoice_id x = 100" "invoice_id y = 101"
    using sb(3) by auto
  have g: "getToken e s = (Inr tok, s1)"
    unfolding s1_def by (intro getToken_eq) (simp add: getToken_def request_fields tk)
  have s1_f: "lastSaleInvoiceId s1 = Some 100" "events s1 = events s"
      "isInitialized s1 = isInitialized s"
    by (simp_all add: s1_def request_fields wm)
  have n1: "\<not> halted s1" using nh by (simp add: s1_def request_fields)
  have n2: "\<not> halted s2"
    using n1 by (simp only: s2_def checkNewOrders_halted [OF pb] not_False_eq_True)
  have fs: "fst (fetchLastSales e s1 tok 20) = Inr sbody"
    by (rule fetchLastSales_reply) (rule sl)
  have new: "newSales_of 100 xs = [y]" by (simp add: newSales_of_def xs xids)
  have s2_ev: "\<exists>sl'. events s2 = events s @ (if isInitialized s then [NewOrder sl'] else []) \<and>
        invoice_id sl' = 101"
  proof (cases "isInitialized s")
    case True
    then have i1: "isInitialized s1" by (simp add: s1_f)
    have ne: "newSales_of 100 xs \<noteq> []" by (simp add: new)
    from checkNewOrders_new(1) [OF i1 n1 s1_f(1) fs sb(1) sb(2) ne pb]
    obtain ys where ys: "events s2 = events s1 @ map NewOrder ys"
        "map invoice_id ys = map invoice_id (newSales_of 100 xs)"
      unfolding s2_def by blast
    from ys(2) obtain sl' where "ys = [sl']" "invoice_id sl' = 101"
      by (auto simp: new xids)
    then show ?thesis using ys(1) True by (auto simp: s1_f)
  next
    case False
    then have "\<not> isInitialized s1" by (simp add: s1_f)
    from checkNewOrders_uninitialized [OF s1_f(1) this]
    have "s2 = request s1 (FetchLastSales 20)" by (simp add: s2_def)
    then show ?thesis using False
      by (intro exI [of _ y]) (simp add: request_fields s1_f xids)
  qed
  have s2_wm: "lastSaleInvoiceId s2 = Some (if isInitialized s then 101 else 100)"
  proof (cases "isInitialized s")
    case True
    then have i1: "isInitialized s1" by (simp add: s1_f)
    have ne: "newSales_of 100 xs \<noteq> []" by (simp add: new)
    from checkNewOrders_new(2) [OF i1 n1 s1_f(1) fs sb(1) sb(2) ne pb]
    show ?thesis using True by (simp add: s2_def new xids)
  next
    case False
    then have "\<not> isInitialized s1" by (simp add: s1_f)
    from checkNewOrders_uninitialized [OF s1_f(1) this]
    have "s2 = request s1 (FetchLastSales 20)" by (simp add: s2_def)
    then show ?thesis using False by (simp add: request_fields s1_f)
  qed
  have s3_f: "lastChatCount s3 = 3" "lastMessageIds s3 = Map.empty" "events s3 = events s2"
      "lastSaleInvoiceId s3 = lastSaleInvoiceId s2"
    by (simp_all add: s3_def s2_def s1_def request_fields checkNewOrders_frame cc mk)
  have fc: "fetchChats e s2 tok = (Inr cbody, s3)"
    unfolding s3_def by (intro fetchChats_eq fetchChats_reply) (rule cl)
  have n3: "\<not> halted s3" using n2 by (simp add: s3_def request_fields)
  have pt: "pollTry e s = pollChats e s3 tok chats"
    using n2 by (simp add: pollTry_def g fc cb(1) Let_def flip: s2_def)
  define s4 where "s4 = fst (newChat e s3 tok c1)"
  define c1' where "c1' = snd (newChat e s3 tok c1)"
  have c1'_id: "id_i c1' = 101" by (simp add: c1'_def newChat_id ids)
  have n4: "\<not> halted s4"
    using n3 by (simp only: s4_def newChat_halted [OF qb pb] not_False_eq_True)
  have n6: "\<not> halted (checkChats e s4 tok [c1', c2, c3, c4])"
    using n4 by (simp only: checkChats_halted [OF qb pb] not_False_eq_True)
  have nc: "newChats e s3 tok [c1] = (s4, [c1'])"
    by (simp add: s4_def c1'_def case_prod_beta)
  have pc: "pollChats e s3 tok chats = (checkChats e s4 tok [c1', c2, c3, c4])\<lparr>lastChatCount := 4\<rparr>"
    using n4 n6 by (simp add: pollChats_def chats s3_f(1) nc Let_def del: checkChats.simps newChats.simps)
  let ?sm = "snd (getChatBuyerEmail e (snd (fetchProduct e s3 tok (product_c c1))) tok (id_i c1))"
  obtain fetched where fe: "messages_reply e (calls ?sm @ [FetchMessages 101 200]) tok
        = Response 200 (Some fetched)" "map id_m fetched = [1, 2]"
    using ms [of "calls ?sm"] by (elim exE conjE)
  obtain m1 m2 where fetched: "fetched = [m1, m2]" and mids: "id_m m1 = 1" "id_m m2 = 2"
    using fe(2) by auto
  have srt: "sort_key id_m fetched = fetched" by (simp add: fetched mids)
  have fm: "fst (fetchMessages e ?sm tok (id_i c1) 200) = Inr fetched"
    by (rule fetchMessages_reply) (use fe(1) in \<open>simp only: ids\<close>)
  have fne: "fetched \<noteq> []" by (simp add: fetched)
  obtain pn where raw: "events (fst (newChat e s3 tok c1)) =
      events s3 @ [NewChat (snd (newChat e s3 tok c1)) pn,
        NewMessages (snd (newChat e s3 tok c1)) (length fetched) (sort_key id_m fetched) pn]"
    using newChat_with_messages(1) [OF fm fne qb pb] by (elim exE)
  have len: "length fetched = 2" by (simp add: fetched)
  have s4_ev: "events s4 = events s3 @ [NewChat c1' pn, NewMessages c1' 2 fetched pn]"
    unfolding s4_def c1'_def using raw by (simp only: srt len)
  have s4_wm: "lastMessageIds s4 = [101 \<mapsto> 2]"
    using newChat_with_messages(2) [OF fm fne qb pb]
    by (simp add: s4_def srt s3_f(2) ids fetched mids)
  have s4_sale: "lastSaleInvoiceId s4 = lastSaleInvoiceId s3"
    by (simp add: s4_def newChat_frame)
  define s5 where "s5 = checkChat e s4 tok c1'"
  obtain again where ag: "messages_reply e (calls s4 @ [FetchMessages 101 200]) tok
        = Response 200 (Some again)" "map id_m again = [1, 2]"
    using ms [of "calls s4"] by (elim exE conjE)
  obtain a1 a2 where again: "again = [a1, a2]" and aids: "id_m a1 = 1" "id_m a2 = 2"
    using ag(2) by auto
  have fa: "fst (fetchMessages e s4 tok (id_i c1') 200) = Inr again"
    unfolding c1'_id by (rule fetchMessages_reply) (rule ag(1))
  have w5: "lastMessageIds s4 (id_i c1') = Some 2" by (simp add: s4_wm c1'_id)
  have q5: "filter (\<lambda>msg. id_m msg > 2) (sort_key id_m again) = []"
    by (simp add: again aids)
  have s5: "s5 = request s4 (FetchMessages (id_i c1') 200)"
    unfolding s5_def by (rule checkChat_quiet [OF fa w5 q5])
  have s5_f: "events s5 = events s4" "lastMessageIds s5 = [101 \<mapsto> 2]"
      "lastSaleInvoiceId s5 = lastSaleInvoiceId s4"
    by (simp_all add: s5 request_fields s4_wm)
  define s6 where "s6 = checkChats e s5 tok [c2, c3, c4]"
  have d: "distinct (map id_i [c2, c3, c4])" using cb(3) by (simp add: ids)
  have others: "\<And>ch. ch \<in> set [c2, c3, c4] \<Longrightarrow> lastMessageIds s5 (id_i ch) = None"
    using cb(3) by (auto simp: s5_f ids)
  from checkChats_cold [OF d others, of e tok]
  have s6_ev: "events s6 = events s5"
    and s6_wm: "\<And>c. c \<notin> id_i ` set [c2, c3, c4] \<Longrightarrow> lastMessageIds s6 c = lastMessageIds s5 c"
    by (simp_all add: s6_def)
  have "101 \<notin> id_i ` set [c2, c3, c4]" using cb(3) by (auto simp: ids)
  then have s6_101: "lastMessageIds s6 101 = Some 2" using s6_wm by (simp add: s5_f)
  have s6_sale: "lastSaleInvoiceId s6 = lastSaleInvoiceId s5"
    unfolding s6_def using checkChats_frame [of e s5 tok "[c2, c3, c4]"] by blast
  have n5: "\<not> halted s5" using n4 by (simp add: s5 request_fields)
  have all: "checkChats e s4 tok [c1', c2, c3, c4] = s6"
    using n5 by (simp add: s6_def Let_def flip: s5_def)
  have res: "pollTry e s = s6\<lparr>lastChatCount := 4\<rparr>" by (simp only: pt pc all)
  obtain sl' where o: "events s2 = events s @ (if isInitialized s then [NewOrder sl'] else [])"
      "invoice_id sl' = 101"
    using s2_ev by blast
  have ev: "events (fst (poll e s)) =
      events s @ (if isInitialized s then [NewOrder sl'] else [])
        @ [NewChat c1' pn, NewMessages c1' 2 fetched pn]"
    by (simp add: poll_fields [OF run] res s6_ev s5_f s4_ev s3_f o(1))
  have r1: "\<exists>sl' ch' pn msgs. events (fst (poll e s)) =
             events s @ (if isInitialized s then [NewOrder sl'] else [])
               @ [NewChat ch' pn, NewMessages ch' 2 msgs pn] \<and>
             invoice_id sl' = 101 \<and> id_i ch' = 101 \<and> map id_m msgs = [1, 2]"
    using ev o(2) c1'_id fe(2)
    by (intro exI [of _ sl'] exI [of _ c1'] exI [of _ pn] exI [of _ fetched]) simp
  have r2: "lastSaleInvoiceId (fst (poll e s)) = Some (if isInitialized s then 101 else 100)"
    by (simp add: poll_fields [OF run] res s6_sale s5_f s4_sale s3_f s2_wm)
  have r3: "lastChatCount (fst (poll e s)) = 4"
    by (simp add: poll_fields [OF run] res)
  have r4: "lastMessageIds (fst (poll e s)) 101 = Some 2"
    by (simp add: poll_fields [OF run] res s6_101)
  show ?thesis using r1 r2 r3 r4 by (intro conjI)
qed

text \<open>
  Claim C3 as it was stated has the first poll report the order of invoice 101 and move
  the invoice watermark to 101. A monitor is constructed and started on the sample launch:
  the start records invoice 100 and three chats, and the first poll, which finds the
  invoices 100 and 101 and the new chat, reports the chat and its two messages only.
\<close>

theorem first_poll_after_start_reports_no_order:
  "events (fst (start launch (new_monitor None)))
     = [NewChat (chat_of 101\<lparr>email := Some ''buyer@example.com''\<rparr>) (Some ''Game key''),
        NewMessages (chat_of 101\<lparr>email := Some ''buyer@example.com''\<rparr>) 2
          [message_of 1, message_of 2] (Some ''Game key'')] \<and>
   lastSaleInvoiceId (fst (start launch (new_monitor None))) = Some 100 \<and>
   lastSaleInvoiceId (fst (start launch (new_monitor None))) \<noteq> Some 101 \<and>
   lastChatCount (fst (start launch (new_monitor None))) = 4 \<and>
   lastMessageIds (fst (start launch (new_monitor None))) 101 = Some 2 \<and>
   calls (fst (start launch (new_monitor None)))
     = [GetToken, FetchLastSales 1, FetchChats, FetchProduct 7,
        GetToken, FetchLastSales 20, FetchChats, FetchInvoiceDetails 101, FetchMessages 101 200,
        FetchMessages 101 200, FetchMessages 11 200, FetchMessages 12 200, FetchMessages 13 200]"
  by (simp add: start_def startTry_def new_monitor_def launch_def
      poll_def pollTry_def pollChats_def getToken_def fetchChats_def checkNewOrders_def
      fetchLastSales_def request_def halt_def shop_def bad_status_def newChat_def checkChat_def
      fetchProduct_def getChatBuyerEmail_def fetchInvoiceDetails_def fetchMessages_def emit_def
      messages_for_def cached_email_def purchase_email_def or_null_def productName_of_def
      chat_of_def message_of_def sale_of_def Let_def)

text \<open>
  The scenario on the sample remote side: the first poll of a monitor, and the same poll
  of a monitor whose first poll is over.
\<close>

theorem first_poll_reports_chat_but_not_order_witness:
  "(\<exists>ch' pn msgs. events (fst (poll (shop [100, 101] [101, 11, 12, 13] (\<lambda>c. if c = 101 then [1, 2] else []))
        (running (Some 100) 3 Map.empty False))) = [NewChat ch' pn, NewMessages ch' 2 msgs pn] \<and>
        id_i ch' = 101 \<and> map id_m msgs = [1, 2]) \<and>
   lastSaleInvoiceId (fst (poll (shop [100, 101] [101, 11, 12, 13] (\<lambda>c. if c = 101 then [1, 2] else []))
        (running (Some 100) 3 Map.empty False))) = Some 100 \<and>
   lastChatCount (fst (poll (shop [100, 101] [101, 11, 12, 13] (\<lambda>c. if c = 101 then [1, 2] else []))
        (running (Some 100) 3 Map.empty False))) = 4 \<and>
   lastMessageIds (fst (poll (shop [100, 101] [101, 11, 12, 13] (\<lambda>c. if c = 101 then [1, 2] else []))
        (running (Some 100) 3 Map.empty False))) 101 = Some 2 \<and>
   (\<exists>sl' ch' pn msgs. events (fst (poll (shop [100, 101] [101, 11, 12, 13] (\<lambda>c. if c = 101 then [1, 2] else []))
        (running (Some 100) 3 Map.empty True))) = [NewOrder sl', NewChat ch' pn, NewMessages ch' 2 msgs pn] \<and>
        invoice_id sl' = 101 \<and> id_i ch' = 101 \<and> map id_m msgs = [1, 2]) \<and>
   lastSaleInvoiceId (fst (poll (shop [100, 101] [101, 11, 12, 13] (\<lambda>c. if c = 101 then [1, 2] else []))
        (running (Some 100) 3 Map.empty True))) = Some 101"
proof -
  let ?e = "shop [100, 101] [101, 11, 12, 13] (\<lambda>c. if c = 101 then [1, 2] else [])"
  let ?sbody = "\<lparr>retval = 0, retdesc = [], sales = Some (map sale_of [100, 101])\<rparr>"
  let ?cbody = "\<lparr>items = Some (map chat_of [101, 11, 12, 13])\<rparr>"
  have tk: "\<And>s. token_reply ?e (calls s @ [GetToken]) = Inr ''token''" by (simp add: shop_def)
  have sl: "\<And>h. sales_reply ?e (h @ [FetchLastSales 20]) ''token'' = Response 200 ?sbody"
    by (simp add: shop_def)
  have sb: "retval ?sbody = 0" "sales ?sbody = Some (map sale_of [100, 101])"
    "map invoice_id (map sale_of [100, 101]) = [100, 101]"
    by (simp_all add: sale_of_def)
  have cl: "\<And>h. chats_reply ?e (h @ [FetchChats]) ''token'' = Response 200 ?cbody"
    by (simp add: shop_def)
  have cb: "items ?cbody = Some (map chat_of [101, 11, 12, 13])"
    "map id_i (map chat_of [101, 11, 12, 13]) = [101, 11, 12, 13]"
    "distinct [101, 11, 12, 13 :: int]"
    by (simp_all add: chat_of_def)
  have ms: "\<And>h. \<exists>fetched. messages_reply ?e (h @ [FetchMessages 101 200]) ''token''
                         = Response 200 (Some fetched) \<and> map id_m fetched = [1, 2]"
    by (simp add: shop_def messages_for_def message_of_def)
  have qb: "\<And>h statusCode. product_reply ?e h ''token'' \<noteq> Response statusCode None"
    and pb: "\<And>h statusCode. purchase_reply ?e h ''token'' \<noteq> Response statusCode None"
    by (simp_all add: shop_def)
  have nh: "\<And>b. \<not> halted (running (Some 100) 3 Map.empty b)" by (simp add: running_def)
  have st: "\<And>b. isRunning (running (Some 100) 3 Map.empty b)"
    "\<And>b. lastSaleInvoiceId (running (Some 100) 3 Map.empty b) = Some 100"
    "\<And>b. lastChatCount (running (Some 100) 3 Map.empty b) = 3"
    "\<And>b. lastMessageIds (running (Some 100) 3 Map.empty b) = Map.empty"
    "\<And>b. events (running (Some 100) 3 Map.empty b) = []"
    "\<And>b. isInitialized (running (Some 100) 3 Map.empty b) = b"
    by (simp_all add: running_def)
  note first = first_poll_reports_chat_but_not_order
    [OF st(1) nh st(2) st(3) st(4) tk sl sb cl cb ms qb pb, of False]
  note later = first_poll_reports_chat_but_not_order
    [OF st(1) nh st(2) st(3) st(4) tk sl sb cl cb ms qb pb, of True]
  let ?a = "running (Some 100) 3 Map.empty False"
  let ?b = "running (Some 100) 3 Map.empty True"
  from first obtain sl1 ch1 pn1 msgs1 where
    a1: "events (fst (poll ?e ?a)) = events ?a @ (if isInitialized ?a then [NewOrder sl1] else [])
           @ [NewChat ch1 pn1, NewMessages ch1 2 msgs1 pn1]"
      "id_i ch1 = 101" "map id_m msgs1 = [1, 2]"
    by (elim conjE exE)
  from later obtain sl2 ch2 pn2 msgs2 where
    b1: "events (fst (poll ?e ?b)) = events ?b @ (if isInitialized ?b then [NewOrder sl2] else [])
           @ [NewChat ch2 pn2, NewMessages ch2 2 msgs2 pn2]"
      "invoice_id sl2 = 101" "id_i ch2 = 101" "map id_m msgs2 = [1, 2]"
    by (elim conjE exE)
  have a2: "events (fst (poll ?e ?a)) = [NewChat ch1 pn1, NewMessages ch1 2 msgs1 pn1]"
    using a1(1) by (simp only: st if_False append_Nil)
  have b2: "events (fst (poll ?e ?b)) = [NewOrder sl2, NewChat ch2 pn2, NewMessages ch2 2 msgs2 pn2]"
    using b1(1) by (simp only: st if_True append_Nil append_Cons)
  have c1: "\<exists>ch' pn msgs. events (fst (poll ?e ?a)) = [NewChat ch' pn, NewMessages ch' 2 msgs pn] \<and>
        id_i ch' = 101 \<and> map id_m msgs = [1, 2]"
    using a2 a1(2,3) by (intro exI [of _ ch1] exI [of _ pn1] exI [of _ msgs1] conjI)
  have c2: "\<exists>sl' ch' pn msgs. events (fst (poll ?e ?b)) =
        [NewOrder sl', NewChat ch' pn, NewMessages ch' 2 msgs pn] \<and>
        invoice_id sl' = 101 \<and> id_i ch' = 101 \<and> map id_m msgs = [1, 2]"
    using b2 b1(2,3,4)
    by (intro exI [of _ sl2] exI [of _ ch2] exI [of _ pn2] exI [of _ msgs2] conjI)
  have c3: "lastSaleInvoiceId (fst (poll ?e ?a)) = Some 100"
    "lastChatCount (fst (poll ?e ?a)) = 4" "lastMessageIds (fst (poll ?e ?a)) 101 = Some 2"
    using first by (simp_all only: st if_False)
  have c4: "lastSaleInvoiceId (fst (poll ?e ?b)) = Some 101"
    using later by (simp only: st if_True)
  show ?thesis
    using c1 c3 c2 c4 by (intro conjI)
qed

section \<open>Watermarks and reports: the loop over the chats and the sales\<close>

text \<open>
  The loop over the chats never lowers a watermark, and reports only messages above the
  watermark of their chat; \<^verbatim>\<open>checkNewOrders\<close> reports only sales above the invoice
  watermark.
\<close>

lemma checkChat_watermark_mono:
  assumes "lastMessageIds s c = Some w"
  shows "\<exists>w'. lastMessageIds (checkChat e s tok ch) c = Some w' \<and> w \<le> w'"
proof -
  obtain r where f: "fetchMessages e s tok (id_i ch) 200 = (r, request s (FetchMessages (id_i ch) 200))"
    using fetchMessages_eq by blast
  show ?thesis using assms
    by (auto simp: checkChat_def f Let_def case_prod_beta emit_def request_fields
          fetchProduct_frame getChatBuyerEmail_frame
          split: sum.splits option.splits awaited.splits)
qed

lemma checkChats_watermark_mono:
  assumes "lastMessageIds s c = Some w"
  shows "\<exists>w'. lastMessageIds (checkChats e s tok cs) c = Some w' \<and> w \<le> w'"
  using assms
proof (induction cs arbitrary: s w)
  case Nil
  then show ?case by simp
next
  case (Cons a cs)
  from checkChat_watermark_mono [OF Cons.prems, of e tok a]
  obtain w1 where w1: "lastMessageIds (checkChat e s tok a) c = Some w1" "w \<le> w1" by blast
  from Cons.IH [OF w1(1)] obtain w2 where
    "lastMessageIds (checkChats e (checkChat e s tok a) tok cs) c = Some w2" "w1 \<le> w2" by blast
  then show ?case using w1 by (auto simp: Let_def)
qed

lemma checkChat_reports_above_watermark:
  assumes "lastMessageIds s (id_i ch) = Some w"
  shows "events (checkChat e s tok ch) = events s \<or>
         (\<exists>ch' ms pn. events (checkChat e s tok ch) = events s @ [NewMessages ch' (length ms) ms pn] \<and>
            id_i ch' = id_i ch \<and> (\<forall>m \<in> set ms. id_m m > w))"
proof -
  obtain r where f: "fst (fetchMessages e s tok (id_i ch) 200) = r" by simp
  show ?thesis
  proof (cases r)
    case (Inl err)
    with f checkChat_failed show ?thesis by (simp add: request_fields)
  next
    case (Inr fetched)
    let ?new = "filter (\<lambda>msg. id_m msg > w) (sort_key id_m fetched)"
    from f Inr have fr: "fst (fetchMessages e s tok (id_i ch) 200) = Inr fetched" by simp
    show ?thesis
    proof (cases "?new = []")
      case True
      from checkChat_quiet [OF fr assms True] show ?thesis by (simp add: request_fields)
    next
      case False
      note fm = fetchMessages_eq [OF fr]
      have all: "\<forall>m \<in> set ?new. id_m m > w" by simp
      let ?s1 = "request s (FetchMessages (id_i ch) 200)"
      let ?s2 = "snd (fetchProduct e ?s1 tok (product_c ch))"
      let ?s3 = "snd (getChatBuyerEmail e ?s2 tok (id_i ch))"
      have fr2: "events ?s2 = events s" "events ?s3 = events s"
        by (simp_all add: fetchProduct_frame getChatBuyerEmail_frame request_fields)
      have "events (checkChat e s tok ch) = events s \<or>
          (\<exists>ch' pn. events (checkChat e s tok ch) = events s @ [NewMessages ch' (length ?new) ?new pn] \<and>
             id_i ch' = id_i ch)"
        using assms False fr2
        by (auto simp: checkChat_def fm Let_def case_prod_beta emit_def request_fields
              split: option.splits awaited.splits)
      then show ?thesis using all by blast
    qed
  qed
qed

lemma checkNewOrders_reports_above_watermark:
  assumes "lastSaleInvoiceId s = Some w"
  shows "\<exists>ys. events (checkNewOrders e s tok) = events s @ map NewOrder ys \<and>
              (\<forall>y \<in> set ys. invoice_id y > w)"
proof -
  let ?s1 = "request s (FetchLastSales 20)"
  obtain r where f: "fetchLastSales e s tok 20 = (r, ?s1)"
    using fetchLastSales_eq by blast
  have ev1: "events ?s1 = events s" by (simp add: request_fields)
  have quiet: "events (checkNewOrders e s tok) = events s \<Longrightarrow> ?thesis"
    by (intro exI [of _ "[]"]) simp
  {
    fix xs
    obtain ys where ys: "events (notifySales e ?s1 tok (newSales_of w xs)) = events ?s1 @ map NewOrder ys"
        "set (map invoice_id ys) \<subseteq> set (map invoice_id (newSales_of w xs))"
      using notifySales_events_sub by blast
    have "\<forall>y \<in> set ys. invoice_id y > w"
    proof
      fix y assume "y \<in> set ys"
      then have "invoice_id y \<in> set (map invoice_id ys)" by simp
      then have "invoice_id y \<in> set (map invoice_id (newSales_of w xs))" using ys(2) by blast
      then obtain sl where "sl \<in> set (newSales_of w xs)" "invoice_id sl = invoice_id y" by auto
      then show "invoice_id y > w" by (auto simp: newSales_of_set)
    qed
    with ys(1) have "\<exists>ys. events (notifySales e ?s1 tok (newSales_of w xs)) = events s @ map NewOrder ys \<and>
              (\<forall>y \<in> set ys. invoice_id y > w)" using ev1 by auto
  }
  note loud = this
  show ?thesis
    using assms quiet loud
    by (auto simp: checkNewOrders_def f Let_def request_fields split: sum.splits option.splits)
qed

section \<open>The chats flagged as new and the watermarks they have\<close>

text \<open>
  Claim C1 says that no poll reports a message at or below the watermark its chat had
  when the poll began, the chats flagged as new included. The code at a failing input:
  chat 101 has the watermark 10 and comes back first in a chat list that has grown from
  one chat to two, with the messages 9, 10 and 11. The poll calls \<^verbatim>\<open>onNewMessage\<close>
  with all three, 9 and 10 among them.
\<close>

theorem new_chat_path_reports_seen_messages:
  "lastMessageIds (running (Some 100) 1 [101 \<mapsto> 10] True) 101 = Some 10 \<and>
   events (fst (poll (shop [] [101, 7] (\<lambda>c. if c = 101 then [9, 10, 11] else []))
                     (running (Some 100) 1 [101 \<mapsto> 10] True)))
     = [NewChat (chat_of 101\<lparr>email := Some ''buyer@example.com''\<rparr>) (Some ''Game key''),
        NewMessages (chat_of 101\<lparr>email := Some ''buyer@example.com''\<rparr>) 3
          [message_of 9, message_of 10, message_of 11] (Some ''Game key'')] \<and>
   id_m (message_of 9) = 9 \<and> id_m (message_of 10) = 10"
  by (simp add: poll_def pollTry_def pollChats_def getToken_def fetchChats_def checkNewOrders_def
      fetchLastSales_def request_def halt_def shop_def running_def bad_status_def newChat_def checkChat_def
      fetchProduct_def getChatBuyerEmail_def fetchInvoiceDetails_def fetchMessages_def emit_def
      messages_for_def cached_email_def purchase_email_def or_null_def productName_of_def
      chat_of_def message_of_def Let_def)

text \<open>
  Claim C2 says that a message watermark, once present, never decreases, the chats
  flagged as new included. The code at a failing input: chat 101 has the watermark 10 and
  comes back first in a chat list that has grown from one chat to two. When its messages
  cannot be fetched, or none is returned, the poll leaves the watermark at 0; when the
  messages 4 and 5 are returned, at 5.
\<close>

theorem new_chat_path_lowers_watermark:
  "lastMessageIds (running (Some 100) 1 [101 \<mapsto> 10] True) 101 = Some 10 \<and>
   lastMessageIds (fst (poll (messages_down (shop [] [101, 7] (\<lambda>c. [])))
                     (running (Some 100) 1 [101 \<mapsto> 10] True))) 101 = Some 0 \<and>
   lastMessageIds (fst (poll (shop [] [101, 7] (\<lambda>c. []))
                     (running (Some 100) 1 [101 \<mapsto> 10] True))) 101 = Some 0 \<and>
   lastMessageIds (fst (poll (shop [] [101, 7] (\<lambda>c. if c = 101 then [4, 5] else []))
                     (running (Some 100) 1 [101 \<mapsto> 10] True))) 101 = Some 5"
  by (simp add: poll_def pollTry_def pollChats_def getToken_def fetchChats_def checkNewOrders_def
      fetchLastSales_def request_def halt_def shop_def running_def bad_status_def newChat_def checkChat_def
      fetchProduct_def getChatBuyerEmail_def fetchInvoiceDetails_def fetchMessages_def emit_def
      messages_for_def cached_email_def purchase_email_def or_null_def productName_of_def
      chat_of_def message_of_def messages_down_def Let_def)

end
